theory Spec2Isabelle
  imports Main "HOL-Library.Sublist"
begin

section \<open>Test harness: port allocation\<close>

text \<open>
  \<^verbatim>\<open>findAvailablePort\<close> of \<^verbatim>\<open>src/main/main.ts\<close> creates a probe server, asks it to listen on
  \<^verbatim>\<open>startPort\<close>, and either resolves with the bound port once the probe has been closed, or,
  on the probe's \<^verbatim>\<open>error\<close> event, resolves with the result of the same function at
  \<^verbatim>\<open>startPort + 1\<close>.

  The network is a parameter: \<open>listens n p\<close> says whether a listener can be bound to port
  \<open>p\<close>, and \<open>assigned n\<close> is the port the operating system hands out when port \<open>0\<close> is asked
  for (\<^verbatim>\<open>testServer.address().port\<close> is then that port, not \<open>0\<close>). Node refuses a port above
  65535 with a synchronous \<^verbatim>\<open>ERR_SOCKET_BAD_PORT\<close>; thrown inside the promise executor, it
  rejects the promise. The function returns the probe events in order, then the outcome.
\<close>

record net =
  listens :: "nat \<Rightarrow> bool"
  assigned :: nat

datatype net_event = ListenFailed nat | Listening nat | Closed nat

datatype port_error = ERR_SOCKET_BAD_PORT

definition address_port :: "net \<Rightarrow> nat \<Rightarrow> nat" where
  "address_port n startPort = (if startPort = 0 then assigned n else startPort)"

function findAvailablePort :: "net \<Rightarrow> nat \<Rightarrow> net_event list \<times> (port_error + nat)" where
  "findAvailablePort n startPort =
     (if 65535 < startPort then ([], Inl ERR_SOCKET_BAD_PORT)
      else if listens n startPort then
        (let port = address_port n startPort in ([Listening port, Closed port], Inr port))
      else
        (let (evs, r) = findAvailablePort n (startPort + 1) in (ListenFailed startPort # evs, r)))"
  by pat_completeness auto
termination
  by (relation "measure (\<lambda>(n, startPort). 65536 - startPort)") auto

declare findAvailablePort.simps [simp del]

section \<open>Test harness: serving the artifact\<close>

text \<open>
  The \<^verbatim>\<open>start-test-server\<close> handler of \<^verbatim>\<open>src/main/main.ts\<close> builds an Express application
  of three layers, in this order: a middleware that sets the cache headers on every
  response and calls \<^verbatim>\<open>next()\<close>; a \<^verbatim>\<open>GET /\<close> route that reads \<^verbatim>\<open>index.html\<close> from the output
  directory, rewrites it with \<^verbatim>\<open>html.replace('</head>', captureScript + '</head>')\<close> and
  sends it, or calls \<^verbatim>\<open>next()\<close> when reading fails; and \<^verbatim>\<open>express.static(outputPath)\<close>.
\<close>

subsection \<open>JavaScript string operations\<close>

text \<open>
  \<^verbatim>\<open>String.prototype.indexOf\<close>: the position of the first occurrence of \<open>pat\<close>, if any.
\<close>

fun indexOf :: "string \<Rightarrow> string \<Rightarrow> nat option" where
  "indexOf pat [] = (if pat = [] then Some 0 else None)"
| "indexOf pat (c # cs) =
     (if prefix pat (c # cs) then Some 0 else map_option Suc (indexOf pat cs))"

text \<open>
  \<^verbatim>\<open>GetSubstitution\<close> of ECMAScript for a string pattern (no capture groups): in the
  replacement text \<^verbatim>\<open>$$\<close> stands for a dollar sign, \<^verbatim>\<open>$&\<close> for the matched text, \<^verbatim>\<open>$`\<close> for
  the text before the match and \<^verbatim>\<open>$'\<close> for the text after it; every other character,
  a dollar sign before anything else included, is copied.
\<close>

fun getSubstitution :: "string \<Rightarrow> string \<Rightarrow> string \<Rightarrow> string \<Rightarrow> string" where
  "getSubstitution matched preceding following [] = []"
| "getSubstitution matched preceding following [c] = [c]"
| "getSubstitution matched preceding following (c # d # rest) =
     (if c = CHR ''$'' \<and> d = CHR ''$'' then
        CHR ''$'' # getSubstitution matched preceding following rest
      else if c = CHR ''$'' \<and> d = CHR ''&'' then
        matched @ getSubstitution matched preceding following rest
      else if c = CHR ''$'' \<and> d = CHR 0x60 then
        preceding @ getSubstitution matched preceding following rest
      else if c = CHR ''$'' \<and> d = CHR 0x27 then
        following @ getSubstitution matched preceding following rest
      else c # getSubstitution matched preceding following (d # rest))"

text \<open>
  \<^verbatim>\<open>String.prototype.replace\<close> with a string pattern: only the first occurrence is
  replaced; without an occurrence the string is returned as it is.
\<close>

definition js_replace :: "string \<Rightarrow> string \<Rightarrow> string \<Rightarrow> string" where
  "js_replace s pat replacement =
     (case indexOf pat s of
        None \<Rightarrow> s
      | Some i \<Rightarrow>
          (let preceding = take i s; following = drop (i + length pat) s
           in preceding @ getSubstitution pat preceding following replacement @ following))"

subsection \<open>The instrumentation snippet\<close>

text \<open>
  The template literal \<^verbatim>\<open>captureScript\<close>: a line feed, then the lines below, each ended
  by a line feed.
\<close>

definition captureScript_lines :: "string list" where
  "captureScript_lines =
    [
     ''<script>'',
     ''(function() {'',
     ''  const original = {'',
     ''    log: console.log,'',
     ''    error: console.error,'',
     ''    warn: console.warn,'',
     ''    info: console.info'',
     ''  };'',
     ''  '',
     ''  function sendToParent(type, args) {'',
     ''    window.parent.postMessage({'',
     ''      type: 'console','',
     ''      level: type,'',
     ''      message: Array.from(args).map(arg => {'',
     ''        if (typeof arg === 'object') {'',
     ''          try { return JSON.stringify(arg); }'',
     ''          catch { return String(arg); }'',
     ''        }'',
     ''        return String(arg);'',
     ''      }).join(' ')'',
     ''    }, '*');'',
     ''  }'',
     ''  '',
     ''  console.log = function(...args) {'',
     ''    original.log.apply(console, args);'',
     ''    sendToParent('log', args);'',
     ''  };'',
     ''  '',
     ''  console.error = function(...args) {'',
     ''    original.error.apply(console, args);'',
     ''    sendToParent('error', args);'',
     ''  };'',
     ''  '',
     ''  console.warn = function(...args) {'',
     ''    original.warn.apply(console, args);'',
     ''    sendToParent('warn', args);'',
     ''  };'',
     ''  '',
     ''  console.info = function(...args) {'',
     ''    original.info.apply(console, args);'',
     ''    sendToParent('info', args);'',
     ''  };'',
     ''  '',
     ''  window.addEventListener('error', function(e) {'',
     ''    sendToParent('error', [e.message + ' at ' + e.filename + ':' + e.lineno]);'',
     ''  });'',
     ''})();'',
     ''</script>''
    ]"

definition captureScript :: string where
  "captureScript = CHR 0x0A # concat (map (\<lambda>l. l @ [CHR 0x0A]) captureScript_lines)"

subsection \<open>Requests and responses\<close>

datatype http_method = GET | HEAD | OtherMethod string

record request =
  req_method :: http_method
  req_path :: string

record response =
  status :: nat
  headers :: "(string \<times> string) list"
  body :: string

text \<open>
  What the handler reads from the machine it runs on: \<open>readFile\<close> is
  \<^verbatim>\<open>fs.readFile(path, 'utf8')\<close> (\<open>None\<close> when the promise rejects), \<open>static_file root path\<close>
  is the file \<^verbatim>\<open>express.static(root)\<close> finds for a request path (\<open>None\<close> when it finds none
  and passes the request on), and \<open>path_join\<close> is \<^verbatim>\<open>path.join\<close>.
\<close>

record web_host =
  readFile :: "string \<Rightarrow> string option"
  static_file :: "string \<Rightarrow> string \<Rightarrow> string option"
  path_join :: "string \<Rightarrow> string \<Rightarrow> string"

definition setHeader :: "string \<Rightarrow> string \<Rightarrow> response \<Rightarrow> response" where
  "setHeader name v res =
     res\<lparr>headers := (name, v) # filter (\<lambda>(k, _). k \<noteq> name) (headers res)\<rparr>"

definition getHeader :: "string \<Rightarrow> response \<Rightarrow> string option" where
  "getHeader name res = map_of (headers res) name"

definition fresh_response :: response where
  "fresh_response = \<lparr>status = 200, headers = [], body = []\<rparr>"

text \<open>The first layer: \<^verbatim>\<open>app.use\<close> with the three \<^verbatim>\<open>res.setHeader\<close> calls.\<close>

definition disable_caching :: "response \<Rightarrow> response" where
  "disable_caching res =
     setHeader ''Expires'' ''0''
       (setHeader ''Pragma'' ''no-cache''
         (setHeader ''Cache-Control'' ''no-store, no-cache, must-revalidate, private'' res))"

text \<open>
  \<^verbatim>\<open>res.send\<close>: status and headers stay as they are, the body is the text (none for a
  \<^verbatim>\<open>HEAD\<close> request).
\<close>

definition res_send :: "request \<Rightarrow> string \<Rightarrow> response \<Rightarrow> response" where
  "res_send req text res = res\<lparr>body := (if req_method req = HEAD then [] else text)\<rparr>"

text \<open>
  The second layer, the \<^verbatim>\<open>GET /\<close> route; \<open>None\<close> is the \<^verbatim>\<open>next()\<close> of the \<^verbatim>\<open>catch\<close> branch.
\<close>

definition inject_capture :: "string \<Rightarrow> string" where
  "inject_capture html = js_replace html ''</head>'' (captureScript @ ''</head>'')"

definition root_route :: "web_host \<Rightarrow> string \<Rightarrow> request \<Rightarrow> response \<Rightarrow> response option" where
  "root_route h outputPath req res =
     (case readFile h (path_join h outputPath ''index.html'') of
        None \<Rightarrow> None
      | Some html \<Rightarrow> Some (res_send req (inject_capture html) res))"

text \<open>
  The third layer, \<^verbatim>\<open>express.static(outputPath)\<close>, and behind it the framework's answer
  to a request no layer has answered. The static layer answers \<^verbatim>\<open>GET\<close> and \<^verbatim>\<open>HEAD\<close> only
  and leaves a \<^verbatim>\<open>Cache-Control\<close> header that is already set untouched. Of the framework's
  answer only the status 404 and the headers are modelled: the page it sends stands as
  \<^verbatim>\<open>Not Found\<close>, and its own reply to \<^verbatim>\<open>OPTIONS\<close> on the root path is left out.
\<close>

definition not_found :: "request \<Rightarrow> response \<Rightarrow> response" where
  "not_found req res = res\<lparr>status := 404, body := ''Not Found''\<rparr>"

definition serve_static :: "web_host \<Rightarrow> string \<Rightarrow> request \<Rightarrow> response \<Rightarrow> response" where
  "serve_static h outputPath req res =
     (case req_method req of
        OtherMethod m \<Rightarrow> not_found req res
      | _ \<Rightarrow>
          (case static_file h outputPath (req_path req) of
             None \<Rightarrow> not_found req res
           | Some content \<Rightarrow> res_send req content res))"

text \<open>
  A route registered with \<^verbatim>\<open>app.get\<close> also answers \<^verbatim>\<open>HEAD\<close> requests for its path.
\<close>

definition handle_request :: "web_host \<Rightarrow> string \<Rightarrow> request \<Rightarrow> response" where
  "handle_request h outputPath req =
     (let res = disable_caching fresh_response in
      if (req_method req = GET \<or> req_method req = HEAD) \<and> req_path req = ''/'' then
        (case root_route h outputPath req res of
           Some sent \<Rightarrow> sent
         | None \<Rightarrow> serve_static h outputPath req res)
      else serve_static h outputPath req res)"

subsection \<open>Concrete hosts\<close>

text \<open>
  Two small machines to run the server on: \<open>demo_host\<close> holds an entry page with two
  closing head tags and one script file; \<open>plain_host html\<close> holds only the given entry page.
\<close>

definition demo_host :: web_host where
  "demo_host = \<lparr>readFile = (\<lambda>p. if p = ''out/index.html'' then Some ''a</head>b</head>'' else None),
     static_file = (\<lambda>root p. if p = ''/index.js'' then Some ''js'' else None),
     path_join = (\<lambda>a b. a @ ''/'' @ b)\<rparr>"

definition plain_host :: "string \<Rightarrow> web_host" where
  "plain_host html = \<lparr>readFile = (\<lambda>p. if p = ''out/index.html'' then Some html else None),
     static_file = (\<lambda>root p. None),
     path_join = (\<lambda>a b. a @ ''/'' @ b)\<rparr>"


section \<open>Build library: setup and extract\<close>

text \<open>
  \<^verbatim>\<open>docker-build-lib.ts\<close> runs the pipeline steps as external commands and decides what to do
  next from each command's exit code. The machine the library runs on is a parameter:
  \<open>spawn\<close> answers a command line given the command lines run so far in this call and
  their results, so the answer to one command may depend on everything done before it.
  The remaining fields are the file system and path functions the two operations call:
  \<open>rmSync\<close> and \<open>mkdirSync\<close> give the message of the error they throw, if they throw;
  \<open>statSync\<close> gives the size of a file in digits, or the message of its error; \<open>duration\<close>
  is the elapsed time as the final message prints it.
\<close>

subsection \<open>Commands, results and logging\<close>

text \<open>
  \<^verbatim>\<open>CommandResult\<close>: the fields \<^verbatim>\<open>output\<close> and \<^verbatim>\<open>error\<close> of the source are \<open>output_text\<close> and
  \<open>error_text\<close> here; \<open>None\<close> is a field left undefined.
\<close>

record CommandResult =
  success :: bool
  output_text :: "string option"
  error_text :: "string option"

text \<open>
  The errors the operations throw: an \<^verbatim>\<open>Error\<close> made by the library itself, or the
  \<^verbatim>\<open>TypeError\<close> Node's \<^verbatim>\<open>path\<close> functions throw for an argument that is not a string.
\<close>

datatype js_error = Error string | TypeError string

datatype log_type = LogInfo | LogSuccess | LogError | LogWarning

text \<open>
  The commands the two operations issue, by the place in the source that issues them;
  \<open>command_line\<close> gives each one's program and argument list as written there.
\<close>

datatype docker_cmd =
    ComposeBuild
  | ProbeBuildScript
  | RunDetached
  | GitClone string string
  | GitPull
  | PrepareSrc string
  | CopyUiDir string string
  | TouchSources string
  | MkdirFonts string
  | MkdirTarget string string
  | CopyFont string string string string
  | WriteManifest string string
  | Stop string
  | CopyOut string string string

definition quoted :: "string \<Rightarrow> string" where
  "quoted s = CHR 0x22 # s @ [CHR 0x22]"

fun command_line :: "docker_cmd \<Rightarrow> string \<times> string list" where
  "command_line ComposeBuild = (''docker-compose'', [''build''])"
| "command_line ProbeBuildScript =
     (''docker-compose'', [''run'', ''--rm'', ''emscripten-build'', ''test'', ''-f'', ''/project/build.sh''])"
| "command_line RunDetached =
     (''docker-compose'', [''run'', ''-d'', ''emscripten-build'', ''sleep'', ''infinity''])"
| "command_line (GitClone containerId repositoryName) =
     (''docker'', [''exec'', containerId, ''sh'', ''-c'',
        quoted (''cd /project && git clone --recursive https://github.com/eez-open/''
                @ repositoryName @ '' .'')])"
| "command_line GitPull =
     (''docker-compose'', [''run'', ''--rm'', ''emscripten-build'', ''sh'', ''-c'',
        quoted ''cd /project && git pull''])"
| "command_line (PrepareSrc containerId) =
     (''docker'', [''exec'', containerId, ''sh'', ''-c'',
        quoted ''rm -rf /project/src && mkdir -p /project/src''])"
| "command_line (CopyUiDir resolvedUiDir containerId) =
     (''docker'', [''cp'', resolvedUiDir @ ''/.'', containerId @ '':/project/src/''])"
| "command_line (TouchSources containerId) =
     (''docker'', [''exec'', containerId, ''find'', ''/project/src'', ''-type'', ''f'', ''('',
        ''-name'', ''*.c'', ''-o'', ''-name'', ''*.h'', '')'', ''-exec'', ''touch'', ''{}'', ''+''])"
| "command_line (MkdirFonts containerId) =
     (''docker'', [''exec'', containerId, ''mkdir'', ''-p'', ''/project/fonts''])"
| "command_line (MkdirTarget containerId targetDir) =
     (''docker'', [''exec'', containerId, ''mkdir'', ''-p'', ''/project'' @ targetDir])"
| "command_line (CopyFont containerId localPath targetDir targetFileName) =
     (''docker'', [''cp'', localPath,
        containerId @ '':/project'' @ targetDir @ ''/'' @ targetFileName])"
| "command_line (WriteManifest containerId manifestContent) =
     (''docker'', [''exec'', containerId, ''sh'', ''-c'',
        quoted (''echo '' @ [CHR 0x27] @ manifestContent @ [CHR 0x27]
                @ '' | base64 -d > /project/fonts.txt'')])"
| "command_line (Stop containerId) = (''docker'', [''stop'', containerId])"
| "command_line (CopyOut containerId file destPath) =
     (''docker'', [''cp'', containerId @ '':/project/build/'' @ file, destPath])"

record host =
  spawn :: "((string \<times> string list) \<times> CommandResult) list \<Rightarrow> string \<times> string list
            \<Rightarrow> CommandResult"
  existsSync :: "string \<Rightarrow> bool"
  path_resolve :: "string \<Rightarrow> string"
  posix_dirname :: "string \<Rightarrow> string"
  posix_basename :: "string \<Rightarrow> string"
  join_path :: "string \<Rightarrow> string \<Rightarrow> string"
  base64 :: "string \<Rightarrow> string"
  duration :: string
  rmSync :: "string \<Rightarrow> string option"
  mkdirSync :: "string \<Rightarrow> string option"
  statSync :: "string \<Rightarrow> string + string"

text \<open>
  The state of one call: the commands run so far with their results, and the messages
  handed to the \<^verbatim>\<open>log\<close> callback with the type argument as passed (\<open>None\<close> when the call
  passes none; both callers' \<^verbatim>\<open>log\<close> functions then take \<^verbatim>\<open>'info'\<close>).
\<close>

record run_state =
  trace :: "(docker_cmd \<times> CommandResult) list"
  logs :: "(log_type option \<times> string) list"

definition start :: run_state where
  "start = \<lparr>trace = [], logs = []\<rparr>"

definition log :: "string \<Rightarrow> log_type option \<Rightarrow> run_state \<Rightarrow> run_state" where
  "log message type st = st\<lparr>logs := logs st @ [(type, message)]\<rparr>"

definition shown_type :: "log_type option \<Rightarrow> log_type" where
  "shown_type type = (case type of None \<Rightarrow> LogInfo | Some t \<Rightarrow> t)"

definition history :: "run_state \<Rightarrow> ((string \<times> string list) \<times> CommandResult) list" where
  "history st = map (\<lambda>(c, r). (command_line c, r)) (trace st)"

text \<open>
  \<^verbatim>\<open>runCommandSilent\<close> runs the command and resolves with its result; \<^verbatim>\<open>runCommand\<close> also
  logs the command line first. Neither throws: a spawn error resolves as a failed result.
\<close>

definition runCommandSilent :: "host \<Rightarrow> docker_cmd \<Rightarrow> run_state \<Rightarrow> CommandResult \<times> run_state" where
  "runCommandSilent h c st =
     (let r = spawn h (history st) (command_line c)
      in (r, st\<lparr>trace := trace st @ [(c, r)]\<rparr>))"

fun join_args :: "string list \<Rightarrow> string" where
  "join_args [] = []"
| "join_args [a] = a"
| "join_args (a # b # rest) = a @ '' '' @ join_args (b # rest)"

definition running_line :: "docker_cmd \<Rightarrow> string" where
  "running_line c = ''Running: '' @ fst (command_line c) @ '' '' @ join_args (snd (command_line c))"

definition runCommand :: "host \<Rightarrow> docker_cmd \<Rightarrow> run_state \<Rightarrow> CommandResult \<times> run_state" where
  "runCommand h c st = runCommandSilent h c (log (running_line c) None st)"

text \<open>
  JavaScript truth of a string that may be undefined, and \<^verbatim>\<open>String.prototype.trim\<close> over
  the white space of ASCII.
\<close>

definition falsy :: "string option \<Rightarrow> bool" where
  "falsy s = (case s of None \<Rightarrow> True | Some t \<Rightarrow> t = [])"

definition is_space :: "char \<Rightarrow> bool" where
  "is_space c = (c = CHR '' '' \<or> c = CHR 0x09 \<or> c = CHR 0x0A \<or> c = CHR 0x0B
                 \<or> c = CHR 0x0C \<or> c = CHR 0x0D)"

definition js_trim :: "string \<Rightarrow> string" where
  "js_trim s = rev (dropWhile is_space (rev (dropWhile is_space s)))"

definition createTempContainer :: "host \<Rightarrow> run_state \<Rightarrow> (js_error + string) \<times> run_state" where
  "createTempContainer h st =
     (let (result, st) = runCommandSilent h RunDetached st in
      if \<not> success result \<or> falsy (output_text result) then
        (Inl (Error ''Failed to create temporary container''), st)
      else
        (let containerId = js_trim (the (output_text result))
         in (Inr containerId, log (''Created temporary container: '' @ containerId) None st)))"

subsection \<open>Setup\<close>

text \<open>
  A font as \<^verbatim>\<open>readProjectFile\<close> stores it. \<^verbatim>\<open>localPath\<close> and \<^verbatim>\<open>fileName\<close> are results of
  \<^verbatim>\<open>path.join\<close> and \<^verbatim>\<open>path.basename\<close>, so strings; \<^verbatim>\<open>targetPath\<close> is the project file's
  \<^verbatim>\<open>lvglFreeTypeFilePath\<close> taken as it is, \<open>None\<close> when the entry has none.
\<close>

record FontInfo =
  localPath :: string
  targetPath :: "string option"
  fileName :: string

record ProjectInfo =
  lvglVersion :: string
  flowSupport :: bool
  projectDir :: string
  uiDir :: string
  destinationFolder :: string
  displayWidth :: nat
  displayHeight :: nat
  fonts :: "FontInfo list"

record BuildConfig =
  repositoryName :: string
  dockerVolumeName :: string
  dockerBuildPath :: string

text \<open>
  The message of the \<^verbatim>\<open>TypeError\<close> that \<^verbatim>\<open>path.posix.dirname\<close> throws for \<^verbatim>\<open>undefined\<close>.
\<close>

definition path_not_a_string :: string where
  "path_not_a_string =
     ''The '' @ quoted ''path'' @ '' argument must be of type string. Received undefined''"

text \<open>
  The loop over the declared fonts. \<^verbatim>\<open>path.posix.dirname(font.targetPath)\<close> throws when the
  target path is undefined, and nothing catches it: the loop and \<^verbatim>\<open>setupProject\<close> end there.
  Otherwise the first font that cannot be copied ends the loop, after the container has
  been stopped.
\<close>

fun copyFonts :: "host \<Rightarrow> string \<Rightarrow> FontInfo list \<Rightarrow> run_state \<Rightarrow> (js_error + unit) \<times> run_state" where
  "copyFonts h containerId [] st = (Inr (), st)"
| "copyFonts h containerId (font # rest) st =
     (let st = log (''Copying font: '' @ fileName font) None st
      in case targetPath font of
           None \<Rightarrow> (Inl (TypeError path_not_a_string), st)
         | Some target \<Rightarrow>
             (let targetDir = posix_dirname h target;
                  targetFileName = posix_basename h target;
                  (_, st) = runCommand h (MkdirTarget containerId targetDir) st;
                  (result, st) =
                    runCommand h (CopyFont containerId (localPath font) targetDir targetFileName) st
              in if \<not> success result then
                   (let (_, st) = runCommand h (Stop containerId) st
                    in (Inl (Error (''Failed to copy font file: '' @ fileName font)), st))
                 else copyFonts h containerId rest st))"

text \<open>A number as a template literal prints it.\<close>

fun decimal :: "nat \<Rightarrow> string" where
  "decimal n =
     (if n < 10 then [char_of (48 + n)] else decimal (n div 10) @ [char_of (48 + n mod 10)])"

declare decimal.simps [simp del]

text \<open>
  \<^verbatim>\<open>Array.prototype.join\<close> with a line feed; an undefined element is joined as the empty
  string.
\<close>

fun join_lines :: "string list \<Rightarrow> string" where
  "join_lines [] = []"
| "join_lines [a] = a"
| "join_lines (a # b # rest) = a @ [CHR 0x0A] @ join_lines (b # rest)"

definition joined :: "string option \<Rightarrow> string" where
  "joined v = (case v of None \<Rightarrow> [] | Some t \<Rightarrow> t)"

text \<open>
  \<^verbatim>\<open>setupProject\<close> from its step 4 on, once the helper container is known: prepare the
  source directory, check and copy the UI directory, touch the sources, copy the fonts
  and write their manifest, stop the container.
\<close>

definition copySources :: "host \<Rightarrow> ProjectInfo \<Rightarrow> string \<Rightarrow> run_state \<Rightarrow> (js_error + unit) \<times> run_state" where
  "copySources h projectInfo containerId st =
     (let st = log ''Preparing src directory...'' None st;
          (_, st) = runCommand h (PrepareSrc containerId) st
      in if uiDir projectInfo = [] then
           (let (_, st) = runCommand h (Stop containerId) st
            in (Inl (Error ''UI directory path is missing''), st))
         else if \<not> existsSync h (uiDir projectInfo) then
           (let (_, st) = runCommand h (Stop containerId) st
            in (Inl (Error (''UI directory not found: '' @ uiDir projectInfo)), st))
         else
           (let resolvedUiDir = path_resolve h (uiDir projectInfo);
                st = log (''Copying '' @ resolvedUiDir @ '' to container...'') None st;
                (result, st) = runCommand h (CopyUiDir resolvedUiDir containerId) st
            in if \<not> success result then
                 (let (_, st) = runCommand h (Stop containerId) st
                  in (Inl (Error ''Failed to copy build destination directory''), st))
               else
                 (let (_, st) = runCommand h (TouchSources containerId) st;
                      (copied, st) =
                        (if fonts projectInfo \<noteq> [] then
                           (let st = log (''Copying '' @ decimal (length (fonts projectInfo))
                                          @ '' font(s) to container...'') None st;
                                (_, st) = runCommand h (MkdirFonts containerId) st
                            in case copyFonts h containerId (fonts projectInfo) st of
                                 (Inl e, st) \<Rightarrow> (Inl e, st)
                               | (Inr _, st) \<Rightarrow>
                                   (let fontsManifest =
                                          join_lines (map (\<lambda>f. joined (targetPath f)) (fonts projectInfo));
                                        manifestContent = base64 h fontsManifest;
                                        (_, st) = runCommand h (WriteManifest containerId manifestContent) st
                                    in (Inr (),
                                        log ''Fonts manifest created: /project/fonts.txt''
                                          (Some LogSuccess) st)))
                         else (Inr (), st))
                  in case copied of
                       Inl e \<Rightarrow> (Inl e, st)
                     | Inr _ \<Rightarrow>
                         (let (_, st) = runCommand h (Stop containerId) st
                          in (Inr (),
                              log (''Setup completed successfully in '' @ duration h @ ''s!'')
                                (Some LogSuccess) st)))))"

text \<open>
  Step 4 begins by creating the helper container unless the clone branch has left one in
  \<^verbatim>\<open>containerId\<close> (\<open>None\<close> is the variable still undefined).
\<close>

definition updateBuildFiles :: "host \<Rightarrow> ProjectInfo \<Rightarrow> string option \<Rightarrow> run_state \<Rightarrow> (js_error + unit) \<times> run_state" where
  "updateBuildFiles h projectInfo containerId st =
     (let st = log ''Updating build files...'' None st
      in if falsy containerId then
           (case createTempContainer h st of
              (Inl e, st) \<Rightarrow> (Inl e, st)
            | (Inr created, st) \<Rightarrow> copySources h projectInfo created st)
         else copySources h projectInfo (the containerId) st)"

text \<open>
  \<^verbatim>\<open>setupProject\<close>: build the image, probe for \<^verbatim>\<open>/project/build.sh\<close>, then clone through a
  new helper container (first time) or pull (already set up), then step 4. An error
  value is the \<^verbatim>\<open>Error\<close> the function throws.
\<close>

definition setupProject :: "host \<Rightarrow> ProjectInfo \<Rightarrow> BuildConfig \<Rightarrow> (js_error + unit) \<times> run_state" where
  "setupProject h projectInfo config =
     (let st = log ''=== Step 1/3: Setup ==='' None start;
          st = log ''Building Docker image...'' None st;
          (result, st) = runCommandSilent h ComposeBuild st
      in if \<not> success result then (Inl (Error ''Failed to build Docker image''), st)
         else
           (let st = log ''Docker image built successfully.'' (Some LogSuccess) st;
                st = log ''Checking if project is already set up...'' None st;
                (result, st) = runCommandSilent h ProbeBuildScript st;
                projectAlreadySetup = success result
            in if \<not> projectAlreadySetup then
                 (let st = log ''First-time setup: Cloning repository from GitHub...'' None st
                  in case createTempContainer h st of
                       (Inl e, st) \<Rightarrow> (Inl e, st)
                     | (Inr containerId, st) \<Rightarrow>
                         (let (result, st) =
                                runCommand h (GitClone containerId (repositoryName config)) st
                          in if \<not> success result then
                               (let (_, st) = runCommand h (Stop containerId) st
                                in (Inl (Error ''Git clone failed''), st))
                             else
                               updateBuildFiles h projectInfo (Some containerId)
                                 (log ''Repository cloned successfully.'' (Some LogSuccess) st)))
               else
                 (let st = log ''Project already exists in Docker volume. Checking for updates...'' None st;
                      st = log ''Pulling latest changes from GitHub...'' None st;
                      (result, st) = runCommand h GitPull st;
                      st = (if \<not> success result then
                              log ''Git pull failed, continuing with existing code...'' (Some LogWarning) st
                            else log ''Latest changes pulled successfully.'' (Some LogSuccess) st)
                  in updateBuildFiles h projectInfo None st)))"

subsection \<open>Extract\<close>

text \<open>
  The loop of \<^verbatim>\<open>extractBuild\<close> over the artifact files: a file that cannot be copied ends
  the operation with an error after stopping the container, unless it is \<^verbatim>\<open>index.data\<close>,
  which is skipped with a message.
\<close>

fun extractFiles :: "host \<Rightarrow> string \<Rightarrow> string \<Rightarrow> string list \<Rightarrow> run_state \<Rightarrow> (js_error + unit) \<times> run_state" where
  "extractFiles h outputPath containerId [] st = (Inr (), st)"
| "extractFiles h outputPath containerId (file # rest) st =
     (let destPath = join_path h outputPath file;
          (result, st) = runCommand h (CopyOut containerId file destPath) st
      in if \<not> success result then
           (if file = ''index.data'' then
              extractFiles h outputPath containerId rest
                (log (file @ '' not found (optional file, skipping)'') None st)
            else
              (let (_, st) = runCommand h (Stop containerId) st
               in (Inl (Error (''Failed to extract '' @ file)), st)))
         else
           extractFiles h outputPath containerId rest
             (case statSync h destPath of
                Inr bytes \<Rightarrow> log (''Extracted '' @ file @ '': '' @ bytes @ '' bytes'') None st
              | Inl message \<Rightarrow>
                  log (''Could not stat '' @ file @ '': '' @ message) (Some LogWarning) st))"

definition artifact_files :: "string list" where
  "artifact_files = [''index.html'', ''index.js'', ''index.wasm'', ''index.data'']"

definition extractBuild :: "host \<Rightarrow> string \<Rightarrow> BuildConfig \<Rightarrow> (js_error + unit) \<times> run_state" where
  "extractBuild h outputPath config =
     (let st = log ''=== Step 3/3: Extract ==='' None start;
          st = log (''Output path: '' @ outputPath) None st;
          st = log ''Cleaning output directory...'' None st;
          removed = (if existsSync h outputPath then rmSync h outputPath else None)
      in case removed of
           Some message \<Rightarrow> (Inl (Error message), st)
         | None \<Rightarrow>
             (let st = (if existsSync h outputPath then log ''Output directory cleaned.'' None st else st)
              in case mkdirSync h outputPath of
                   Some message \<Rightarrow> (Inl (Error message), st)
                 | None \<Rightarrow>
                     (let st = log ''Extracting build files from Docker volume...'' None st
                      in case createTempContainer h st of
                           (Inl e, st) \<Rightarrow> (Inl e, st)
                         | (Inr containerId, st) \<Rightarrow>
                             (let st = log (''Container ID: '' @ containerId) None st
                              in case extractFiles h outputPath containerId artifact_files st of
                                   (Inl e, st) \<Rightarrow> (Inl e, st)
                                 | (Inr _, st) \<Rightarrow>
                                     (let (_, st) = runCommand h (Stop containerId) st
                                      in (Inr (),
                                          log (''Build files extracted successfully in ''
                                               @ duration h @ ''s!'') (Some LogSuccess) st))))))"

subsection \<open>Reading a trace\<close>

text \<open>
  The identifiers \<^verbatim>\<open>createTempContainer\<close> has returned in a trace, in order, and the
  results of a given command in it.
\<close>

definition obtained_id :: "docker_cmd \<times> CommandResult \<Rightarrow> bool" where
  "obtained_id e = (fst e = RunDetached \<and> success (snd e) \<and> \<not> falsy (output_text (snd e)))"

definition created_containers :: "(docker_cmd \<times> CommandResult) list \<Rightarrow> string list" where
  "created_containers tr = map (\<lambda>e. js_trim (the (output_text (snd e)))) (filter obtained_id tr)"

definition results_of :: "docker_cmd \<Rightarrow> (docker_cmd \<times> CommandResult) list \<Rightarrow> bool list" where
  "results_of c tr = map (\<lambda>e. success (snd e)) (filter (\<lambda>e. fst e = c) tr)"

fun is_clone :: "docker_cmd \<Rightarrow> bool" where
  "is_clone (GitClone containerId repo) = True"
| "is_clone _ = False"

definition commands :: "run_state \<Rightarrow> docker_cmd list" where
  "commands st = map fst (trace st)"

text \<open>
  The commands of step 4 of the setup, and a trace without them; the command a trace
  ends with.
\<close>

fun tail_cmd :: "docker_cmd \<Rightarrow> bool" where
  "tail_cmd (PrepareSrc c) = True"
| "tail_cmd (CopyUiDir d c) = True"
| "tail_cmd (TouchSources c) = True"
| "tail_cmd (MkdirFonts c) = True"
| "tail_cmd (MkdirTarget c d) = True"
| "tail_cmd (CopyFont c l d f) = True"
| "tail_cmd (WriteManifest c m) = True"
| "tail_cmd (Stop c) = True"
| "tail_cmd _ = False"

definition head_trace :: "run_state \<Rightarrow> (docker_cmd \<times> CommandResult) list" where
  "head_trace st = filter (\<lambda>e. \<not> tail_cmd (fst e)) (trace st)"

definition last_cmd :: "run_state \<Rightarrow> docker_cmd option" where
  "last_cmd st = (if trace st = [] then None else Some (fst (last (trace st))))"

text \<open>Every declared font has a target path.\<close>

definition fonts_have_targets :: "ProjectInfo \<Rightarrow> bool" where
  "fonts_have_targets p = list_all (\<lambda>f. targetPath f \<noteq> None) (fonts p)"

definition pull_warning :: "log_type option \<times> string" where
  "pull_warning = (Some LogWarning, ''Git pull failed, continuing with existing code...'')"

definition all_but_pull_succeed :: "run_state \<Rightarrow> bool" where
  "all_but_pull_succeed st = list_all (\<lambda>e. fst e = GitPull \<or> success (snd e)) (trace st)"

text \<open>The results of the copies of one artifact file out of the volume.\<close>

fun copies :: "string \<Rightarrow> docker_cmd \<Rightarrow> bool" where
  "copies file (CopyOut containerId copied destPath) = (copied = file)"
| "copies file _ = False"

definition copy_results :: "string \<Rightarrow> (docker_cmd \<times> CommandResult) list \<Rightarrow> bool list" where
  "copy_results file tr = map (\<lambda>e. success (snd e)) (filter (\<lambda>e. copies file (fst e)) tr)"

definition skipped_notice :: "log_type option \<times> string" where
  "skipped_notice = (None, ''index.data not found (optional file, skipping)'')"

definition clone_failed :: "run_state \<Rightarrow> bool" where
  "clone_failed st = list_ex (\<lambda>e. is_clone (fst e) \<and> \<not> success (snd e)) (trace st)"

subsection \<open>Concrete machines and projects\<close>

text \<open>
  \<open>machine failing\<close> is a machine on which exactly the command lines in \<open>failing\<close> fail;
  every other command succeeds and prints the identifier \<^verbatim>\<open>4f2a\<close> on a line. The project is
  the one of the specification's end-to-end scenario: version 9.2.2, flow support, a
  480 by 272 display, no fonts.
\<close>

definition ok_result :: "string \<Rightarrow> CommandResult" where
  "ok_result text = \<lparr>success = True, output_text = Some text, error_text = Some []\<rparr>"

definition failed_result :: CommandResult where
  "failed_result = \<lparr>success = False, output_text = Some [], error_text = Some ''failed''\<rparr>"

definition machine :: "(string \<times> string list) list \<Rightarrow> host" where
  "machine failing =
     \<lparr>spawn = (\<lambda>hist c. if c \<in> set failing then failed_result else ok_result ''4f2a\<newline>''),
      existsSync = (\<lambda>p. True),
      path_resolve = (\<lambda>p. p),
      posix_dirname = (\<lambda>p. ''/fonts''),
      posix_basename = (\<lambda>p. ''a.ttf''),
      join_path = (\<lambda>a b. a @ ''/'' @ b),
      base64 = (\<lambda>t. t),
      duration = ''0.1'',
      rmSync = (\<lambda>p. None),
      mkdirSync = (\<lambda>p. None),
      statSync = (\<lambda>p. Inr ''1'')\<rparr>"

definition demo_project :: ProjectInfo where
  "demo_project = \<lparr>lvglVersion = ''9.2.2'', flowSupport = True, projectDir = ''/p'',
     uiDir = ''/p/src/ui'', destinationFolder = ''src/ui'', displayWidth = 480,
     displayHeight = 272, fonts = []\<rparr>"

text \<open>
  The same project with one FreeType font whose entry in the project file has no
  \<^verbatim>\<open>lvglFreeTypeFilePath\<close>.
\<close>

definition untargeted_project :: ProjectInfo where
  "untargeted_project =
     demo_project\<lparr>fonts := [\<lparr>localPath = ''/p/fonts/Roboto.ttf'', targetPath = None,
                                fileName = ''Roboto.ttf''\<rparr>]\<rparr>"

definition demo_config :: BuildConfig where
  "demo_config = \<lparr>repositoryName = ''lvgl-simulator-for-studio-docker-build'',
     dockerVolumeName = ''lvgl-simulator'', dockerBuildPath = ''/docker-build''\<rparr>"

section \<open>Process supervisor: running and aborting a command\<close>

text \<open>
  \<^verbatim>\<open>main.ts\<close> keeps the child process of the command in flight in the module variable
  \<^verbatim>\<open>currentDockerProcess\<close>. \<^verbatim>\<open>runDockerCommand\<close> stores the child there when it spawns it and
  resolves its promise when the child's \<^verbatim>\<open>close\<close> event arrives; the \<^verbatim>\<open>abort-operation\<close> handler
  signals the child, arms a timer of 1000 ms and clears the variable.

  A child is what Node's \<^verbatim>\<open>ChildProcess\<close> shows of it, plus the one thing the program cannot
  choose: whether the process ends when it receives \<^verbatim>\<open>SIGTERM\<close>. \<^verbatim>\<open>subprocess.kill\<close> delivers the
  signal to a process that has not ended and then sets \<^verbatim>\<open>killed\<close>: the flag says that a signal
  was delivered, not that the process has ended. \<^verbatim>\<open>SIGKILL\<close> always ends the process.
\<close>

datatype signal = SIGTERM | SIGKILL

record child =
  killed :: bool
  received :: "signal list"
  ended :: bool
  ignores_term :: bool

definition kill :: "signal \<Rightarrow> child \<Rightarrow> child" where
  "kill sig c =
     (if ended c then c
      else c\<lparr>killed := True, received := received c @ [sig],
             ended := (sig = SIGKILL \<or> \<not> ignores_term c)\<rparr>)"

text \<open>
  The state of the main process that the supervisor uses: the children by process
  number, the module variable, the number of armed abort timers, and the promises of
  \<^verbatim>\<open>runDockerCommand\<close> resolved so far, each with its \<^verbatim>\<open>success\<close> flag.
\<close>

record supervisor =
  children :: "nat \<Rightarrow> child"
  spawned :: nat
  currentDockerProcess :: "nat option"
  armed_timers :: nat
  resolved :: "(nat \<times> bool) list"

definition fresh_child :: "bool \<Rightarrow> child" where
  "fresh_child stubborn = \<lparr>killed = False, received = [], ended = False, ignores_term = stubborn\<rparr>"

definition idle :: supervisor where
  "idle = \<lparr>children = (\<lambda>p. fresh_child False), spawned = 0, currentDockerProcess = None,
            armed_timers = 0, resolved = []\<rparr>"

text \<open>\<^verbatim>\<open>runDockerCommand\<close> up to its first suspension: spawn the child and track it.\<close>

definition runDockerCommand_spawn :: "bool \<Rightarrow> supervisor \<Rightarrow> supervisor" where
  "runDockerCommand_spawn stubborn s =
     s\<lparr>children := (children s)(spawned s := fresh_child stubborn),
       currentDockerProcess := Some (spawned s),
       spawned := spawned s + 1\<rparr>"

text \<open>
  The handler of the \<^verbatim>\<open>close\<close> event of child \<open>p\<close> with exit code \<open>code\<close> (\<open>None\<close> for a
  child ended by a signal): the only place where the promise of the run is resolved,
  apart from a spawn error. The event arrives only once the child has ended.
\<close>

definition on_close :: "nat \<Rightarrow> int option \<Rightarrow> supervisor \<Rightarrow> supervisor" where
  "on_close p code s =
     s\<lparr>currentDockerProcess := None, resolved := resolved s @ [(p, code = Some 0)]\<rparr>"

text \<open>The \<^verbatim>\<open>abort-operation\<close> handler; the reply is its \<^verbatim>\<open>success\<close> flag.\<close>

definition abort_operation :: "supervisor \<Rightarrow> bool \<times> supervisor" where
  "abort_operation s =
     (case currentDockerProcess s of
        Some p \<Rightarrow>
          (True,
           s\<lparr>children := (children s)(p := kill SIGTERM (children s p)),
             armed_timers := armed_timers s + 1,
             currentDockerProcess := None\<rparr>)
      | None \<Rightarrow> (False, s))"

text \<open>
  The timer's callback, run 1000 ms after the abort: it reads the module variable as it
  is then.
\<close>

definition abort_timer_fires :: "supervisor \<Rightarrow> supervisor" where
  "abort_timer_fires s =
     (if armed_timers s = 0 then s
      else
        (let s = s\<lparr>armed_timers := armed_timers s - 1\<rparr>
         in case currentDockerProcess s of
              Some p \<Rightarrow>
                (if \<not> killed (children s p)
                 then s\<lparr>children := (children s)(p := kill SIGKILL (children s p))\<rparr>
                 else s)
            | None \<Rightarrow> s))"

text \<open>
  A command whose process does not end on \<^verbatim>\<open>SIGTERM\<close> is in flight; the user aborts; the
  grace period passes.
\<close>

definition aborted_stubborn_run :: supervisor where
  "aborted_stubborn_run =
     abort_timer_fires (snd (abort_operation (runDockerCommand_spawn True idle)))"

section \<open>Renderer: the stage state machine and the stale flag\<close>

text \<open>
  The renderer keeps the pipeline state in one object \<^verbatim>\<open>state\<close> and shows each stage's
  status in a badge. What follows models the fields of \<^verbatim>\<open>state\<close> that the stage operations
  read or write, the three badges (their CSS class and text as \<^verbatim>\<open>setStatus\<close> sets them),
  whether the file-change notification is displayed, and the lines \<^verbatim>\<open>logMessage\<close> has
  appended. Buttons, tabs, the preview frame and the editor of the configuration header
  are left out, and so are the symbols that start some badge texts and the duration in
  the last message of \<^verbatim>\<open>runAll\<close>.

  Every operation is an \<^verbatim>\<open>async\<close> function. It is modelled by the list of states it leaves at
  each of its suspension points and at its end, given the results of the calls it awaits;
  an empty list is an operation that returned at once without touching the state.
\<close>

datatype badge_class = Pending | InProgress | Completed | ErrorBadge | Running

record project_info =
  info_projectName :: string
  info_uiDir :: string
  info_lvglVersion :: string
  info_flowSupport :: bool
  info_setupComplete :: bool
  info_buildComplete :: bool

datatype read_result = ReadFailed string | ReadOk project_info

record app_state =
  projectPath :: "string option"
  projectInfo :: "project_info option"
  setupComplete :: bool
  buildComplete :: bool
  testRunning :: bool
  operationRunning :: bool
  outputPath :: "string option"
  testUrl :: "string option"
  fileChangedSinceSetup :: bool
  setupStatus :: "badge_class \<times> string"
  buildStatus :: "badge_class \<times> string"
  testStatus :: "badge_class \<times> string"
  notificationShown :: bool
  messages :: "(string \<times> string) list"

text \<open>
  The state the script starts with. The badges are what the page shows before any
  \<^verbatim>\<open>setStatus\<close>; the page's markup is not among the sources, so they are parameters, and
  a start state is one whose build and test badges are not in progress.
\<close>

definition initial :: "badge_class \<times> string \<Rightarrow> badge_class \<times> string \<Rightarrow> badge_class \<times> string \<Rightarrow> app_state" where
  "initial b1 b2 b3 =
     \<lparr>projectPath = None, projectInfo = None, setupComplete = False, buildComplete = False,
      testRunning = False, operationRunning = False, outputPath = None, testUrl = None,
      fileChangedSinceSetup = False, setupStatus = b1, buildStatus = b2, testStatus = b3,
      notificationShown = False, messages = []\<rparr>"

definition logMessage :: "string \<Rightarrow> string \<Rightarrow> app_state \<Rightarrow> app_state" where
  "logMessage type text s = s\<lparr>messages := messages s @ [(type, text)]\<rparr>"

definition truthy :: "string option \<Rightarrow> bool" where
  "truthy v = (case v of None \<Rightarrow> False | Some t \<Rightarrow> t \<noteq> [])"

text \<open>\<^verbatim>\<open>updateUI\<close>, as far as the badges go.\<close>

definition updateUI :: "app_state \<Rightarrow> app_state" where
  "updateUI s =
     (if operationRunning s then s
      else if testRunning s then s
      else if projectInfo s = None then
        s\<lparr>setupStatus := (Pending, []), buildStatus := (Pending, []), testStatus := (Pending, [])\<rparr>
      else s)"

definition final :: "app_state \<Rightarrow> app_state list \<Rightarrow> app_state" where
  "final s states = last (s # states)"

subsection \<open>Stopping the test and loading a project\<close>

definition stopTest :: "app_state \<Rightarrow> app_state list" where
  "stopTest s =
     [s,
      updateUI (logMessage ''info'' ''Test server stopped.''
        (s\<lparr>testRunning := False, testUrl := None, testStatus := (Pending, [])\<rparr>))]"

definition stop_if_running :: "app_state \<Rightarrow> app_state list" where
  "stop_if_running s = (if testRunning s then stopTest s else [])"

text \<open>
  \<^verbatim>\<open>loadProject\<close> up to its first suspension, the reading of the project file: it notes
  whether another project was loaded before and stores the new path.
\<close>

definition loadProject_begin :: "string \<Rightarrow> app_state \<Rightarrow> bool \<times> app_state" where
  "loadProject_begin path s =
     (truthy (projectPath s) \<and> projectPath s \<noteq> Some path,
      logMessage ''info'' (''Selected project file: '' @ path) (s\<lparr>projectPath := Some path\<rparr>))"

text \<open>\<^verbatim>\<open>loadProject\<close> from the result of the reading on.\<close>

definition loadProject_continue :: "bool \<Rightarrow> read_result \<Rightarrow> app_state \<Rightarrow> app_state list" where
  "loadProject_continue isDifferentProject r s =
     (case r of
        ReadFailed e \<Rightarrow>
          [updateUI ((logMessage ''error'' (''Failed to load project: '' @ e) s)\<lparr>projectInfo := None\<rparr>)]
      | ReadOk result \<Rightarrow>
          (let s2 = s\<lparr>projectInfo := Some result\<rparr>;
               s3 = logMessage ''success'' (''Project loaded: '' @ info_projectName result) s2
           in if isDifferentProject then
                (let s4 = logMessage ''info'' ''Different project selected - resetting workflow state.'' s3;
                     stops = stop_if_running s4;
                     s5 = final s4 stops
                 in [s2] @ stops @
                    [updateUI (s5\<lparr>setupComplete := False, buildComplete := False, testRunning := False,
                                  fileChangedSinceSetup := False, notificationShown := False,
                                  setupStatus := (Pending, []), buildStatus := (Pending, []),
                                  testStatus := (Pending, [])\<rparr>)])
              else
                (let s4 = s3\<lparr>setupComplete := info_setupComplete result,
                              buildComplete := info_buildComplete result,
                              testRunning := False, fileChangedSinceSetup := False,
                              notificationShown := False\<rparr>;
                     s5 = (if setupComplete s4 then
                             logMessage ''info'' ''Previous setup detected.''
                               (s4\<lparr>setupStatus := (Completed, ''Complete'')\<rparr>)
                           else s4);
                     s6 = (if buildComplete s5 then
                             logMessage ''info'' ''Previous build detected. Ready to test.''
                               (s5\<lparr>buildStatus := (Completed, ''Complete'')\<rparr>)
                           else s5)
                 in [s2, updateUI s6])))"

definition loadProject :: "string \<Rightarrow> read_result \<Rightarrow> app_state \<Rightarrow> app_state list" where
  "loadProject path r s =
     (let (isDifferentProject, s1) = loadProject_begin path s
      in s1 # loadProject_continue isDifferentProject r s1)"

subsection \<open>The stage operations\<close>

text \<open>
  \<^verbatim>\<open>runSetup\<close> from the point where the settings have been read again: mark the operation,
  await \<^verbatim>\<open>setupProject\<close>, record its outcome.
\<close>

definition setup_stage :: "bool \<Rightarrow> app_state \<Rightarrow> app_state list" where
  "setup_stage ok s =
     (let s1 = logMessage ''info'' ''=== Starting Setup ===''
                 (updateUI (s\<lparr>operationRunning := True, setupStatus := (InProgress, ''Running...'')\<rparr>));
          s2 = (if ok then
                  s1\<lparr>setupComplete := True, buildComplete := False, testRunning := False,
                     fileChangedSinceSetup := False, notificationShown := False,
                     setupStatus := (Completed, ''Complete''), buildStatus := (Pending, []),
                     testStatus := (Pending, [])\<rparr>
                else s1\<lparr>setupComplete := False, setupStatus := (ErrorBadge, ''Failed'')\<rparr>)
      in [s1, updateUI (s2\<lparr>operationRunning := False\<rparr>)])"

definition runSetup :: "read_result \<Rightarrow> bool \<Rightarrow> app_state \<Rightarrow> app_state list" where
  "runSetup r ok s =
     (if projectInfo s = None then []
      else
        (let stops = stop_if_running s;
             s1 = final s stops
         in if truthy (projectPath s1) then
              (let s2 = logMessage ''info'' ''Re-reading project file for latest settings...'' s1
               in case r of
                    ReadOk result \<Rightarrow>
                      stops @ [s2] @
                      setup_stage ok
                        (logMessage ''success'' (''Detected project: '' @ info_projectName result
                             @ '' (LVGL '' @ info_lvglVersion result @ '')'')
                           (s2\<lparr>projectInfo := Some result\<rparr>))
                  | ReadFailed e \<Rightarrow>
                      stops @ [s2, logMessage ''error'' (''Failed to read project: '' @ e) s2])
            else stops @ setup_stage ok s1))"

text \<open>
  \<^verbatim>\<open>runBuild\<close> in its parts. \<open>runBuild_begin\<close> is the part from the end of the stopping of the
  test to the await of \<^verbatim>\<open>buildProject\<close>; \<open>runBuild_end\<close> is the part after that await, run on
  the state as it is when the call resolves. \<open>runBuild\<close> is the whole operation when
  nothing else runs during its awaits.
\<close>

definition runBuild_begin :: "app_state \<Rightarrow> app_state" where
  "runBuild_begin s =
     logMessage ''info'' ''=== Starting Build ===''
       (updateUI (s\<lparr>operationRunning := True, buildStatus := (InProgress, ''Building...'')\<rparr>))"

definition runBuild_end :: "bool \<Rightarrow> app_state \<Rightarrow> app_state" where
  "runBuild_end ok s =
     updateUI
       ((if ok then
           s\<lparr>buildComplete := True, testRunning := False,
              buildStatus := (Completed, ''Complete''), testStatus := (Pending, [])\<rparr>
         else s\<lparr>buildComplete := False, buildStatus := (ErrorBadge, ''Failed'')\<rparr>)
        \<lparr>operationRunning := False\<rparr>)"

definition runBuild :: "bool \<Rightarrow> app_state \<Rightarrow> app_state list" where
  "runBuild ok s =
     (if projectInfo s = None \<or> \<not> setupComplete s then []
      else
        (let stops = stop_if_running s;
             s1 = final s stops;
             s2 = runBuild_begin s1
         in stops @ [s2, runBuild_end ok s2]))"

definition runRebuild :: "bool \<Rightarrow> bool \<Rightarrow> app_state \<Rightarrow> app_state list" where
  "runRebuild cleaned ok s =
     (if projectInfo s = None \<or> \<not> setupComplete s then []
      else
        (let stops = stop_if_running s;
             s1 = final s stops;
             s2 = logMessage ''info'' ''Cleaning build directory...''
                    (logMessage ''info'' ''=== Starting Rebuild ===''
                      (updateUI (s1\<lparr>operationRunning := True, buildStatus := (InProgress, ''Cleaning...'')\<rparr>)))
         in if \<not> cleaned then
              stops @
              [s2,
               updateUI ((logMessage ''error'' ''Failed to clean build directory'' s2)
                 \<lparr>buildComplete := False, buildStatus := (ErrorBadge, ''Failed''),
                  operationRunning := False\<rparr>)]
            else stops @ [s2] @ runBuild ok s2))"

text \<open>
  \<^verbatim>\<open>runTest\<close> in its parts: \<open>runTest_begin\<close> from the guard to the await of
  \<^verbatim>\<open>extractBuild\<close>; \<open>runTest_extracted\<close> from there to the await of \<^verbatim>\<open>startTestServer\<close>, or to
  the end when the extraction has failed (\<open>None\<close>); \<open>runTest_served\<close> from there to the end.
  Each part after an await runs on the state as it is when the call resolves.
\<close>

definition runTest_begin :: "app_state \<Rightarrow> app_state" where
  "runTest_begin s =
     logMessage ''info'' ''=== Starting Test ===''
       (updateUI (s\<lparr>operationRunning := True, testStatus := (InProgress, ''Extracting...'')\<rparr>))"

definition runTest_extracted :: "string option \<Rightarrow> app_state \<Rightarrow> app_state" where
  "runTest_extracted extracted s =
     (case extracted of
        None \<Rightarrow> updateUI (s\<lparr>testStatus := (ErrorBadge, ''Failed''), operationRunning := False\<rparr>)
      | Some out \<Rightarrow> s\<lparr>outputPath := Some out, testStatus := (InProgress, ''Starting server...'')\<rparr>)"

definition runTest_served :: "string option \<Rightarrow> app_state \<Rightarrow> app_state" where
  "runTest_served served s =
     (case served of
        Some url \<Rightarrow>
          updateUI (s\<lparr>testRunning := True, testUrl := Some url,
                       testStatus := (Completed, ''Running''), operationRunning := False\<rparr>)
      | None \<Rightarrow> updateUI (s\<lparr>testStatus := (ErrorBadge, ''Failed''), operationRunning := False\<rparr>))"

definition runTest :: "string option \<Rightarrow> string option \<Rightarrow> app_state \<Rightarrow> app_state list" where
  "runTest extracted served s =
     (if projectInfo s = None \<or> \<not> buildComplete s then []
      else
        (let s1 = runTest_begin s;
             s2 = runTest_extracted extracted s1
         in case extracted of
              None \<Rightarrow> [s1, s2]
            | Some out \<Rightarrow> [s1, s2, runTest_served served s2]))"

definition runAll :: "bool \<Rightarrow> bool \<Rightarrow> string option \<Rightarrow> string option \<Rightarrow> app_state \<Rightarrow> app_state list" where
  "runAll setupOk buildOk extracted served s =
     (if projectInfo s = None then []
      else
        (let stops = stop_if_running s;
             s1 = final s stops;
             s2 = (logMessage ''info'' ''Step 1/3: Running Setup...''
                    (logMessage ''info'' ''=== Starting Run All (Setup -> Build -> Test) ===''
                      (updateUI (s1\<lparr>operationRunning := True\<rparr>))))
                  \<lparr>setupStatus := (InProgress, ''Running...'')\<rparr>
         in if \<not> setupOk then
              stops @
              [s2,
               updateUI ((logMessage ''error'' ''Setup failed - aborting Run All'' s2)
                 \<lparr>setupComplete := False, setupStatus := (ErrorBadge, ''Failed''),
                  operationRunning := False\<rparr>)]
            else
              (let s3 = (logMessage ''info'' ''Step 2/3: Running Build...''
                          (s2\<lparr>setupComplete := True, fileChangedSinceSetup := False,
                              notificationShown := False,
                              setupStatus := (Completed, ''Complete'')\<rparr>))
                        \<lparr>buildStatus := (InProgress, ''Building...'')\<rparr>
               in if \<not> buildOk then
                    stops @
                    [s2, s3,
                     updateUI ((logMessage ''error'' ''Build failed - aborting Run All'' s3)
                       \<lparr>buildComplete := False, buildStatus := (ErrorBadge, ''Failed''),
                        operationRunning := False\<rparr>)]
                  else
                    (let s4 = (logMessage ''info'' ''Step 3/3: Starting Test...''
                                (s3\<lparr>buildComplete := True, buildStatus := (Completed, ''Complete'')\<rparr>))
                              \<lparr>testStatus := (InProgress, ''Extracting...'')\<rparr>
                     in case extracted of
                          None \<Rightarrow>
                            stops @
                            [s2, s3, s4,
                             updateUI ((logMessage ''error'' ''Extract failed - aborting Run All'' s4)
                               \<lparr>testStatus := (ErrorBadge, ''Failed''), operationRunning := False\<rparr>)]
                        | Some out \<Rightarrow>
                            (let s5 = s4\<lparr>outputPath := Some out,
                                         testStatus := (InProgress, ''Starting server...'')\<rparr>
                             in case served of
                                  None \<Rightarrow>
                                    stops @
                                    [s2, s3, s4, s5,
                                     updateUI ((logMessage ''error'' ''Server start failed - aborting Run All'' s5)
                                       \<lparr>testStatus := (ErrorBadge, ''Failed''),
                                        operationRunning := False\<rparr>)]
                                | Some url \<Rightarrow>
                                    stops @
                                    [s2, s3, s4, s5,
                                     updateUI ((logMessage ''success'' ''=== Run All completed successfully! ===''
                                                 (s5\<lparr>testUrl := Some url, testRunning := True,
                                                     testStatus := (Running, ''Running'')\<rparr>))
                                       \<lparr>operationRunning := False\<rparr>)])))))"

subsection \<open>The file-change notification\<close>

text \<open>
  The \<^verbatim>\<open>onFileChanged\<close> listener. For the project file it starts \<^verbatim>\<open>loadProject\<close> without
  awaiting it, so the first part of \<^verbatim>\<open>loadProject\<close> runs inside the listener and the rest
  after it. For any other path, a file under the UI directory, it raises the flag if
  setup is complete and the flag is down.
\<close>

definition onFileChanged :: "string \<Rightarrow> read_result \<Rightarrow> app_state \<Rightarrow> app_state list" where
  "onFileChanged path r s =
     (if Some path = projectPath s then
        (let s1 = logMessage ''info'' ''Project file changed, reloading...'' s;
             wasSetupComplete = setupComplete s1;
             (isDifferentProject, s2) = loadProject_begin path s1;
             s3 = (if wasSetupComplete then
                     s2\<lparr>fileChangedSinceSetup := True, notificationShown := True\<rparr>
                   else s2)
         in s3 # loadProject_continue isDifferentProject r s3)
      else if setupComplete s \<and> \<not> fileChangedSinceSetup s then
        [logMessage ''info'' (''File changed: '' @ path)
           (s\<lparr>fileChangedSinceSetup := True, notificationShown := True\<rparr>)]
      else [])"

text \<open>The two buttons of the notification.\<close>

definition dismiss :: "app_state \<Rightarrow> app_state list" where
  "dismiss s = [s\<lparr>notificationShown := False, fileChangedSinceSetup := False\<rparr>]"

definition rebuild :: "bool \<Rightarrow> bool \<Rightarrow> string option \<Rightarrow> string option \<Rightarrow> app_state \<Rightarrow> app_state list" where
  "rebuild setupOk buildOk extracted served s =
     (let stops = stop_if_running s;
          s1 = (final s stops)\<lparr>notificationShown := False, fileChangedSinceSetup := False\<rparr>
      in stops @ [s1] @ runAll setupOk buildOk extracted served s1)"

subsection \<open>Events handled one at a time\<close>

datatype event =
    LoadProject string read_result
  | FileChanged string read_result
  | Dismiss
  | Rebuild bool bool "string option" "string option"
  | RunSetup read_result bool
  | RunBuild bool
  | RunRebuild bool bool
  | RunAll bool bool "string option" "string option"
  | RunTest "string option" "string option"
  | StopTest

fun handle :: "event \<Rightarrow> app_state \<Rightarrow> app_state list" where
  "handle (LoadProject path r) s = loadProject path r s"
| "handle (FileChanged path r) s = onFileChanged path r s"
| "handle Dismiss s = dismiss s"
| "handle (Rebuild setupOk buildOk extracted served) s = rebuild setupOk buildOk extracted served s"
| "handle (RunSetup r ok) s = runSetup r ok s"
| "handle (RunBuild ok) s = runBuild ok s"
| "handle (RunRebuild cleaned ok) s = runRebuild cleaned ok s"
| "handle (RunAll setupOk buildOk extracted served) s = runAll setupOk buildOk extracted served s"
| "handle (RunTest extracted served) s = runTest extracted served s"
| "handle StopTest s = stopTest s"

text \<open>
  The states the renderer is in between events when every event is handled to its end
  before the next one arrives: the start, and the state any operation leaves behind when
  run from such a state with any results of the calls it awaits. These are not all the
  states of the program: the listener for file changes also runs while an operation is
  suspended at an await, which the runs under \<open>Events during an operation\<close> below show.
\<close>

inductive reachable_serially :: "app_state \<Rightarrow> bool" where
  start: "fst b2 \<noteq> InProgress \<Longrightarrow> fst b3 \<noteq> InProgress \<Longrightarrow> reachable_serially (initial b1 b2 b3)"
| step: "reachable_serially s \<Longrightarrow> reachable_serially (final s (handle e s))"

text \<open>
  A stage is running while an operation is in flight and the stage's badge is in
  progress; the test is also running while its server is up.
\<close>

definition build_running :: "app_state \<Rightarrow> bool" where
  "build_running s = (operationRunning s \<and> fst (buildStatus s) = InProgress)"

definition test_running :: "app_state \<Rightarrow> bool" where
  "test_running s = (testRunning s \<or> (operationRunning s \<and> fst (testStatus s) = InProgress))"

text \<open>The events whose build step fails, by the results they carry.\<close>

fun build_fails :: "event \<Rightarrow> bool" where
  "build_fails (RunBuild ok) = (\<not> ok)"
| "build_fails (RunRebuild cleaned ok) = (\<not> cleaned \<or> \<not> ok)"
| "build_fails (RunAll setupOk buildOk extracted served) = (setupOk \<and> \<not> buildOk)"
| "build_fails _ = False"

text \<open>A sequence of watch events, each handled to its end before the next.\<close>

fun watch :: "(string \<times> read_result) list \<Rightarrow> app_state \<Rightarrow> app_state" where
  "watch [] s = s"
| "watch ((path, r) # rest) s = watch rest (final s (onFileChanged path r s))"

text \<open>
  The states between operations never show a stage in progress, have no operation in
  flight, and have the test server up only over a complete build.
\<close>

definition settled :: "app_state \<Rightarrow> bool" where
  "settled s = (\<not> operationRunning s \<and> (testRunning s \<longrightarrow> buildComplete s)
     \<and> fst (buildStatus s) \<noteq> InProgress \<and> fst (testStatus s) \<noteq> InProgress)"

text \<open>A project whose volume is set up but not built, and the state after loading it.\<close>

definition demo_info :: project_info where
  "demo_info = \<lparr>info_projectName = ''demo'', info_uiDir = ''/p/src/ui'', info_lvglVersion = ''9.2.2'',
     info_flowSupport = True, info_setupComplete = True, info_buildComplete = False\<rparr>"

definition loaded :: app_state where
  "loaded = final (initial (Pending, []) (Pending, []) (Pending, []))
     (handle (LoadProject ''/p/demo.eez-project'' (ReadOk demo_info))
        (initial (Pending, []) (Pending, []) (Pending, [])))"

text \<open>
  Three watch events with no dismissal and no rebuild between them: a source file of the
  UI directory changes, then the project file (read again with success, its setup still
  found complete), then a header of the UI directory.
\<close>

definition interleaved_changes :: "(string \<times> read_result) list" where
  "interleaved_changes =
     [(''/p/src/ui/screens.c'', ReadFailed []),
      (''/p/demo.eez-project'', ReadOk demo_info),
      (''/p/src/ui/screens.h'', ReadFailed [])]"

subsection \<open>Events during an operation\<close>



definition built :: app_state where
  "built = final loaded (runBuild True loaded)"




definition stage_order :: "app_state \<Rightarrow> bool" where
  "stage_order s = ((build_running s \<longrightarrow> setupComplete s) \<and> (test_running s \<longrightarrow> buildComplete s))"

section \<open>Properties of the port allocation\<close>

lemma findAvailablePort_scan:
  "0 < startPort \<Longrightarrow> startPort + k \<le> 65535 \<Longrightarrow> listens n (startPort + k) \<Longrightarrow>
   (\<forall>q. startPort \<le> q \<and> q < startPort + k \<longrightarrow> \<not> listens n q) \<Longrightarrow>
   findAvailablePort n startPort =
     (map ListenFailed [startPort ..< startPort + k] @ [Listening (startPort + k), Closed (startPort + k)],
      Inr (startPort + k))"
proof (induction k arbitrary: startPort)
  case 0
  then show ?case
    by (simp add: findAvailablePort.simps [of n startPort] address_port_def)
next
  case (Suc k)
  have blocked: "\<not> listens n startPort"
    using Suc.prems(4) by simp
  have step: "findAvailablePort n (Suc startPort) =
     (map ListenFailed [Suc startPort ..< Suc startPort + k] @
        [Listening (Suc startPort + k), Closed (Suc startPort + k)],
      Inr (Suc startPort + k))"
    using Suc.prems by (intro Suc.IH) auto
  have range: "[startPort ..< Suc (startPort + k)] = startPort # [Suc startPort ..< Suc (startPort + k)]"
    by (rule upt_conv_Cons) simp
  show ?case
    using blocked step Suc.prems(2)
    by (simp add: findAvailablePort.simps [of n startPort] range del: upt_Suc)
qed

text \<open>
  Claim C7. With a start port inside the valid range, \<open>findAvailablePort\<close> tries the candidate
  ports in increasing order from \<open>startPort\<close>, records a failed bind for every candidate below
  the first free port \<open>p\<close>, binds \<open>p\<close>, closes that probe listener, and only then resolves
  with \<open>p\<close>: the first port at or above \<open>startPort\<close> on which a listener binds.
\<close>

theorem findAvailablePort_first_free:
  assumes "0 < startPort" and "startPort \<le> p" and "p \<le> 65535"
    and "listens n p"
    and "\<forall>q. startPort \<le> q \<and> q < p \<longrightarrow> \<not> listens n q"
  shows "findAvailablePort n startPort =
     (map ListenFailed [startPort ..< p] @ [Listening p, Closed p], Inr p)"
proof -
  obtain k where k: "p = startPort + k"
    using assms(2) by (metis le_Suc_ex)
  show ?thesis
    using assms findAvailablePort_scan [of startPort k n] unfolding k by simp
qed

text \<open>
  The instance of the specification: ports 3000 and 3001 occupied, every other port free,
  start at 3000; the result is 3002.
\<close>

theorem findAvailablePort_first_free_witness:
  "findAvailablePort \<lparr>listens = (\<lambda>p. p \<noteq> 3000 \<and> p \<noteq> 3001), assigned = 49152\<rparr> 3000 =
     ([ListenFailed 3000, ListenFailed 3001, Listening 3002, Closed 3002], Inr 3002)"
proof -
  have "map ListenFailed [3000 ..< 3002] = [ListenFailed 3000, ListenFailed (3001::nat)]"
    by (simp add: upt_conv_Cons)
  moreover have "\<forall>q::nat. 3000 \<le> q \<and> q < 3002 \<longrightarrow> q = 3000 \<or> q = 3001"
    by arith
  ultimately show ?thesis
    using findAvailablePort_first_free
      [of 3000 3002 "\<lparr>listens = (\<lambda>p. p \<noteq> 3000 \<and> p \<noteq> 3001), assigned = 49152\<rparr>"]
    by simp
qed


section \<open>Properties of the test server\<close>

lemma getSubstitution_literal:
  "CHR ''$'' \<notin> set r \<Longrightarrow> getSubstitution m b a r = r"
  by (induction m b a r rule: getSubstitution.induct) auto

lemma captureScript_no_dollar: "CHR ''$'' \<notin> set (captureScript @ ''</head>'')"
  by (simp add: captureScript_def captureScript_lines_def)

lemma indexOf_None: "indexOf pat s = None \<longleftrightarrow> \<not> sublist pat s"
  by (induction s) (auto simp: sublist_Cons_right)

lemma indexOf_first:
  "(\<forall>j < length pre. \<not> prefix pat (drop j (pre @ pat @ post))) \<Longrightarrow>
   indexOf pat (pre @ pat @ post) = Some (length pre)"
proof (induction pre)
  case Nil
  show ?case by (cases "pat @ post") (auto, metis prefixI)
next
  case (Cons c pre)
  have "\<not> prefix pat ((c # pre) @ pat @ post)"
    using Cons.prems by (metis drop0 length_greater_0_conv list.discI)
  moreover have "\<forall>j < length pre. \<not> prefix pat (drop j (pre @ pat @ post))"
    using Cons.prems by auto
  ultimately show ?case using Cons.IH by simp
qed

lemma inject_capture_no_head:
  "\<not> sublist ''</head>'' html \<Longrightarrow> inject_capture html = html"
  using indexOf_None [of "''</head>''" html]
  by (simp add: inject_capture_def js_replace_def)

lemma inject_capture_first:
  assumes "html = pre @ ''</head>'' @ post"
    and "\<forall>j < length pre. \<not> prefix ''</head>'' (drop j html)"
  shows "inject_capture html = pre @ captureScript @ ''</head>'' @ post"
proof -
  have "indexOf ''</head>'' html = Some (length pre)"
    using assms indexOf_first [of pre "''</head>''" post] by simp
  moreover have "getSubstitution m b a (captureScript @ ''</head>'') = captureScript @ ''</head>''" for m b a
    using captureScript_no_dollar by (rule getSubstitution_literal)
  ultimately show ?thesis
    using assms(1) by (simp add: inject_capture_def js_replace_def Let_def)
qed

lemma map_of_filter_other:
  "k \<noteq> k' \<Longrightarrow> map_of (filter (\<lambda>(x, _). x \<noteq> k') xs) k = map_of xs k"
  by (induction xs) auto

lemma getHeader_setHeader:
  "getHeader k (setHeader k' v res) = (if k = k' then Some v else getHeader k res)"
  by (simp add: getHeader_def setHeader_def map_of_filter_other)

lemma cache_headers_set:
  "getHeader ''Cache-Control'' (disable_caching res) = Some ''no-store, no-cache, must-revalidate, private''"
  "getHeader ''Pragma'' (disable_caching res) = Some ''no-cache''"
  "getHeader ''Expires'' (disable_caching res) = Some ''0''"
  by (simp_all add: disable_caching_def getHeader_setHeader)

lemma handle_request_headers:
  "headers (handle_request h dir req) = headers (disable_caching fresh_response)"
  by (simp add: handle_request_def root_route_def serve_static_def res_send_def not_found_def
      Let_def split: option.splits http_method.splits)

text \<open>
  Claim C8. Every response of the test server carries the three cache-defeating headers.
  A \<^verbatim>\<open>GET\<close> of the root path whose \<^verbatim>\<open>index.html\<close> has its first closing head tag after
  \<open>pre\<close> is answered with status 200 and the page with the capture snippet inserted
  immediately before that tag. A request for any other path is answered by the static
  layer over the output directory: a file it finds is sent as it is.
\<close>

theorem test_server_contract:
  "getHeader ''Cache-Control'' (handle_request h dir req) =
     Some ''no-store, no-cache, must-revalidate, private''
   \<and> getHeader ''Pragma'' (handle_request h dir req) = Some ''no-cache''
   \<and> getHeader ''Expires'' (handle_request h dir req) = Some ''0''
   \<and> (\<forall>html pre post.
         req_method req = GET \<and> req_path req = ''/''
         \<and> readFile h (path_join h dir ''index.html'') = Some html
         \<and> html = pre @ ''</head>'' @ post
         \<and> (\<forall>j < length pre. \<not> prefix ''</head>'' (drop j html))
         \<longrightarrow> status (handle_request h dir req) = 200
           \<and> body (handle_request h dir req) = pre @ captureScript @ ''</head>'' @ post)
   \<and> (req_path req \<noteq> ''/'' \<longrightarrow>
         handle_request h dir req =
           serve_static h dir req (disable_caching fresh_response))
   \<and> (\<forall>content. req_method req = GET \<and> req_path req \<noteq> ''/''
         \<and> static_file h dir (req_path req) = Some content
         \<longrightarrow> status (handle_request h dir req) = 200
           \<and> body (handle_request h dir req) = content)"
proof -
  have hdr: "getHeader k (handle_request h dir req) = getHeader k (disable_caching fresh_response)" for k
    by (simp add: getHeader_def handle_request_headers)
  have root: "status (handle_request h dir req) = 200
      \<and> body (handle_request h dir req) = pre @ captureScript @ ''</head>'' @ post"
    if "req_method req = GET" "req_path req = ''/''"
      "readFile h (path_join h dir ''index.html'') = Some html"
      "html = pre @ ''</head>'' @ post"
      "\<forall>j < length pre. \<not> prefix ''</head>'' (drop j html)"
    for html pre post
    using that inject_capture_first [of html pre post]
    by (simp add: handle_request_def root_route_def res_send_def Let_def
        disable_caching_def setHeader_def fresh_response_def)
  have other: "handle_request h dir req =
      serve_static h dir req (disable_caching fresh_response)"
    if "req_path req \<noteq> ''/''"
    using that by (simp add: handle_request_def Let_def)
  have served: "status (handle_request h dir req) = 200
      \<and> body (handle_request h dir req) = content"
    if "req_method req = GET" "req_path req \<noteq> ''/''"
      "static_file h dir (req_path req) = Some content"
    for content
    using that by (simp add: other serve_static_def res_send_def
        disable_caching_def setHeader_def fresh_response_def)
  show ?thesis
    using root other served by (simp add: hdr cache_headers_set)
qed

text \<open>
  On \<open>demo_host\<close>, the root page \<^verbatim>\<open>a</head>b</head>\<close> comes back with the snippet before the
  first closing head tag, under the cache headers.
\<close>

theorem test_server_contract_witness:
  "getHeader ''Cache-Control'' (handle_request demo_host ''out'' \<lparr>req_method = GET, req_path = ''/''\<rparr>) =
     Some ''no-store, no-cache, must-revalidate, private''
   \<and> body (handle_request demo_host ''out'' \<lparr>req_method = GET, req_path = ''/''\<rparr>) =
       ''a'' @ captureScript @ ''</head>b</head>''"
proof -
  note contract = test_server_contract
    [of demo_host "''out''" "\<lparr>req_method = GET, req_path = ''/''\<rparr>"]
  have first: "\<forall>j < length ''a''. \<not> prefix ''</head>'' (drop j ''a</head>b</head>'')"
    by simp
  have "readFile demo_host (path_join demo_host ''out'' ''index.html'') = Some ''a</head>b</head>''"
    by (simp add: demo_host_def)
  with first show ?thesis
    using contract [THEN conjunct1]
      contract [THEN conjunct2, THEN conjunct2, THEN conjunct2, THEN conjunct1, rule_format,
        of "''a</head>b</head>''" "''a''" "''b</head>''"]
    by simp
qed

text \<open>
  Claim C10. In the root route the snippet replaces only the first occurrence of the
  literal \<^verbatim>\<open></head>\<close>: everything after that occurrence, later closing head tags included,
  is sent as it was read. A page without the literal is sent unchanged, with status 200:
  nothing is injected and the route does not fail.
\<close>

theorem root_response_first_head_only:
  assumes "req_method req = GET" and "req_path req = ''/''"
    and "readFile h (path_join h dir ''index.html'') = Some html"
  shows "(\<not> sublist ''</head>'' html \<longrightarrow>
            handle_request h dir req = (disable_caching fresh_response)\<lparr>body := html\<rparr>)
       \<and> (\<forall>pre post. html = pre @ ''</head>'' @ post
              \<and> (\<forall>j < length pre. \<not> prefix ''</head>'' (drop j html))
            \<longrightarrow> handle_request h dir req =
                  (disable_caching fresh_response)\<lparr>body := pre @ captureScript @ ''</head>'' @ post\<rparr>)"
proof -
  have sent: "handle_request h dir req =
      (disable_caching fresh_response)\<lparr>body := inject_capture html\<rparr>"
    using assms by (simp add: handle_request_def root_route_def res_send_def Let_def)
  show ?thesis
  proof (intro conjI impI allI)
    assume "\<not> sublist ''</head>'' html"
    then have "inject_capture html = html"
      by (rule inject_capture_no_head)
    then show "handle_request h dir req = (disable_caching fresh_response)\<lparr>body := html\<rparr>"
      by (simp only: sent)
  next
    fix pre post
    assume first: "html = pre @ ''</head>'' @ post
      \<and> (\<forall>j < length pre. \<not> prefix ''</head>'' (drop j html))"
    have "inject_capture html = pre @ captureScript @ ''</head>'' @ post"
      using first by (intro inject_capture_first) blast+
    then show "handle_request h dir req =
        (disable_caching fresh_response)\<lparr>body := pre @ captureScript @ ''</head>'' @ post\<rparr>"
      by (simp only: sent)
  qed
qed

text \<open>
  A page without a closing head tag is served as it is; of two closing head tags only the
  first gets the snippet.
\<close>

theorem root_response_first_head_only_witness:
  "body (handle_request (plain_host ''<p>hi</p>'') ''out'' \<lparr>req_method = GET, req_path = ''/''\<rparr>) =
     ''<p>hi</p>''
   \<and> status (handle_request (plain_host ''<p>hi</p>'') ''out'' \<lparr>req_method = GET, req_path = ''/''\<rparr>) = 200
   \<and> body (handle_request (plain_host ''x</head>y</head>'') ''out'' \<lparr>req_method = GET, req_path = ''/''\<rparr>) =
     ''x'' @ captureScript @ ''</head>'' @ ''y</head>''"
proof -
  let ?req = "\<lparr>req_method = GET, req_path = ''/''\<rparr>"
  have req: "req_method ?req = GET" "req_path ?req = ''/''"
    by simp_all
  have none: "\<not> sublist ''</head>'' ''<p>hi</p>''"
    by (simp add: sublist_Cons_right)
  have first: "''x</head>y</head>'' = ''x'' @ ''</head>'' @ ''y</head>''
      \<and> (\<forall>j < length ''x''. \<not> prefix ''</head>'' (drop j ''x</head>y</head>''))"
    by simp
  have read_ok: "readFile (plain_host html) (path_join (plain_host html) ''out'' ''index.html'') = Some html"
    for html
    by (simp add: plain_host_def)
  have plain: "handle_request (plain_host ''<p>hi</p>'') ''out'' ?req =
      (disable_caching fresh_response)\<lparr>body := ''<p>hi</p>''\<rparr>"
    by (rule root_response_first_head_only [OF req read_ok, THEN conjunct1, rule_format])
      (rule none)
  have twice: "handle_request (plain_host ''x</head>y</head>'') ''out'' ?req =
      (disable_caching fresh_response)\<lparr>body := ''x'' @ captureScript @ ''</head>'' @ ''y</head>''\<rparr>"
    by (rule root_response_first_head_only [OF req read_ok, THEN conjunct2, rule_format])
      (rule first)
  have "status ((disable_caching fresh_response)\<lparr>body := b\<rparr>) = 200" for b
    by (simp add: disable_caching_def setHeader_def fresh_response_def)
  then show ?thesis
    unfolding plain twice by simp
qed


section \<open>Properties of the build library\<close>

lemma log_simps [simp]:
  "trace (log m t st) = trace st"
  "logs (log m t st) = logs st @ [(t, m)]"
  by (simp_all add: log_def)

lemma log_derived [simp]:
  "head_trace (log m t st) = head_trace st"
  "last_cmd (log m t st) = last_cmd st"
  by (simp_all add: head_trace_def last_cmd_def)

lemma runCommandSilent_effect:
  "runCommandSilent h c st = (r, st') \<Longrightarrow> trace st' = trace st @ [(c, r)] \<and> logs st' = logs st"
  by (auto simp: runCommandSilent_def Let_def)

lemma runCommand_effect:
  "runCommand h c st = (r, st') \<Longrightarrow>
     trace st' = trace st @ [(c, r)] \<and>
     logs st' = logs st @ [(None, running_line c)]"
  by (auto simp: runCommand_def dest!: runCommandSilent_effect)

lemma runCommand_trace:
  "runCommand h c st = (r, st') \<Longrightarrow> trace st' = trace st @ [(c, r)]"
  by (simp add: runCommand_effect)

lemma createTempContainer_cases:
  assumes "createTempContainer h st = (res, st')"
  obtains
    (failed) r where
      "trace st' = trace st @ [(RunDetached, r)]" "\<not> obtained_id (RunDetached, r)"
      "res = Inl (Error ''Failed to create temporary container'')" "logs st' = logs st"
  | (made) r cid where
      "trace st' = trace st @ [(RunDetached, r)]" "obtained_id (RunDetached, r)"
      "cid = js_trim (the (output_text r))" "res = Inr cid"
      "logs st' = logs st @ [(None, ''Created temporary container: '' @ cid)]"
proof -
  obtain r st1 where s1: "runCommandSilent h RunDetached st = (r, st1)"
    by (cases "runCommandSilent h RunDetached st")
  note e1 = runCommandSilent_effect [OF s1]
  show thesis
  proof (cases "obtained_id (RunDetached, r)")
    case False
    then have "res = Inl (Error ''Failed to create temporary container'')" "st' = st1"
      using assms s1 by (auto simp: createTempContainer_def obtained_id_def)
    then show thesis
      using False e1 by (intro failed [of r]) auto
  next
    case True
    then have "res = Inr (js_trim (the (output_text r)))"
      "st' = log (''Created temporary container: '' @ js_trim (the (output_text r))) None st1"
      using assms s1 by (auto simp: createTempContainer_def obtained_id_def Let_def)
    then show thesis
      using True e1 by (intro made [of r "js_trim (the (output_text r))"]) auto
  qed
qed

lemma copyFonts_step:
  assumes "copyFonts h cid (font # rest) st = (res, st')"
  obtains
    (untargeted)
      "targetPath font = None" "trace st' = trace st" "set (logs st) \<subseteq> set (logs st')"
      "res = Inl (TypeError path_not_a_string)"
  | (copied) target r1 r2 st2 where
      "targetPath font = Some target"
      "trace st2 = trace st @
         [(MkdirTarget cid (posix_dirname h target), r1),
          (CopyFont cid (localPath font) (posix_dirname h target) (posix_basename h target), r2)]"
      "set (logs st) \<subseteq> set (logs st2)"
      "success r2" "copyFonts h cid rest st2 = (res, st')"
  | (failed) target r1 r2 r3 where
      "targetPath font = Some target"
      "trace st' = trace st @
         [(MkdirTarget cid (posix_dirname h target), r1),
          (CopyFont cid (localPath font) (posix_dirname h target) (posix_basename h target), r2),
          (Stop cid, r3)]"
      "set (logs st) \<subseteq> set (logs st')"
      "\<not> success r2" "res = Inl (Error (''Failed to copy font file: '' @ fileName font))"
proof (cases "targetPath font")
  case None
  then have "res = Inl (TypeError path_not_a_string)"
    "st' = log (''Copying font: '' @ fileName font) None st"
    using assms by (simp_all add: Let_def)
  then show thesis
    using None by (intro untargeted) auto
next
  case (Some target)
  let ?mk = "MkdirTarget cid (posix_dirname h target)"
  let ?cp = "CopyFont cid (localPath font) (posix_dirname h target) (posix_basename h target)"
  obtain r1 st1 where s1: "runCommand h ?mk (log (''Copying font: '' @ fileName font) None st) = (r1, st1)"
    by (cases "runCommand h ?mk (log (''Copying font: '' @ fileName font) None st)")
  obtain r2 st2 where s2: "runCommand h ?cp st1 = (r2, st2)"
    by (cases "runCommand h ?cp st1")
  obtain r3 st3 where s3: "runCommand h (Stop cid) st2 = (r3, st3)"
    by (cases "runCommand h (Stop cid) st2")
  note e1 = runCommand_effect [OF s1] and e2 = runCommand_effect [OF s2]
    and e3 = runCommand_effect [OF s3]
  show thesis
  proof (cases "success r2")
    case True
    then have "copyFonts h cid rest st2 = (res, st')"
      using assms Some s1 s2 by (simp add: Let_def)
    with True show thesis
      using Some e1 e2 by (intro copied [of target st2 r1 r2]) auto
  next
    case False
    then have "res = Inl (Error (''Failed to copy font file: '' @ fileName font))" "st' = st3"
      using assms Some s1 s2 s3 by (simp_all add: Let_def)
    with False show thesis
      using Some e1 e2 e3 by (intro failed [of target r1 r2 r3]) auto
  qed
qed

lemma copyFonts_effect:
  "copyFonts h cid fs st = (res, st') \<Longrightarrow>
     head_trace st' = head_trace st \<and> set (logs st) \<subseteq> set (logs st')"
proof (induction fs arbitrary: st)
  case Nil
  then show ?case by auto
next
  case (Cons font rest)
  from Cons.prems show ?case
  proof (cases rule: copyFonts_step)
    case untargeted
    then show ?thesis
      by (simp add: head_trace_def)
  next
    case (copied target r1 r2 st2)
    from Cons.IH [OF copied(5)] show ?thesis
      using copied(2,3) by (auto simp: head_trace_def)
  next
    case (failed target r1 r2 r3)
    then show ?thesis
      by (auto simp: head_trace_def)
  qed
qed

lemma copyFonts_stops:
  "copyFonts h cid fs st = (res, st') \<Longrightarrow> list_all (\<lambda>f. targetPath f \<noteq> None) fs \<Longrightarrow>
     (case res of Inl e \<Rightarrow> last_cmd st' = Some (Stop cid) | Inr _ \<Rightarrow> True)"
proof (induction fs arbitrary: st)
  case Nil
  then show ?case by auto
next
  case (Cons font rest)
  from Cons.prems(1) show ?case
  proof (cases rule: copyFonts_step)
    case untargeted
    then show ?thesis
      using Cons.prems(2) by simp
  next
    case (copied target r1 r2 st2)
    from Cons.IH [OF copied(5)] show ?thesis
      using Cons.prems(2) by simp
  next
    case (failed target r1 r2 r3)
    then show ?thesis
      by (auto simp: last_cmd_def)
  qed
qed

lemma copySources_effect:
  "copySources h info cid st = (res, st') \<Longrightarrow>
     head_trace st' = head_trace st \<and> set (logs st) \<subseteq> set (logs st')"
  by (auto simp: copySources_def Let_def head_trace_def
      split: prod.splits if_splits sum.splits
      dest!: runCommand_effect copyFonts_effect)

lemma copySources_stops:
  "copySources h info cid st = (res, st') \<Longrightarrow> fonts_have_targets info \<Longrightarrow>
     last_cmd st' = Some (Stop cid)"
  by (auto simp: copySources_def Let_def last_cmd_def fonts_have_targets_def
      split: prod.splits if_splits sum.splits
      dest!: runCommand_effect dest: copyFonts_stops)

lemma copyFonts_ok:
  "copyFonts h cid fs st = (res, st') \<Longrightarrow> list_all (\<lambda>f. targetPath f \<noteq> None) fs \<Longrightarrow>
   all_but_pull_succeed st' \<Longrightarrow> res = Inr ()"
proof (induction fs arbitrary: st)
  case Nil
  then show ?case by auto
next
  case (Cons font rest)
  from Cons.prems(1) show ?case
  proof (cases rule: copyFonts_step)
    case untargeted
    then show ?thesis
      using Cons.prems(2) by simp
  next
    case (copied target r1 r2 st2)
    from Cons.IH [OF copied(5) _ Cons.prems(3)] show ?thesis
      using Cons.prems(2) by simp
  next
    case (failed target r1 r2 r3)
    then show ?thesis
      using Cons.prems(3) by (auto simp: all_but_pull_succeed_def)
  qed
qed

lemma copySources_ok:
  "copySources h info cid st = (res, st') \<Longrightarrow> uiDir info \<noteq> [] \<Longrightarrow> existsSync h (uiDir info) \<Longrightarrow>
   fonts_have_targets info \<Longrightarrow> all_but_pull_succeed st' \<Longrightarrow> res = Inr ()"
  by (auto simp: copySources_def Let_def all_but_pull_succeed_def fonts_have_targets_def
      split: prod.splits if_splits sum.splits
      dest!: runCommand_trace dest: copyFonts_ok)


lemma updateBuildFiles_given:
  "updateBuildFiles h info (Some cid) st = (res, st') \<Longrightarrow> cid \<noteq> [] \<Longrightarrow>
     head_trace st' = head_trace st \<and> set (logs st) \<subseteq> set (logs st')
     \<and> (fonts_have_targets info \<longrightarrow> last_cmd st' = Some (Stop cid))"
proof -
  assume run: "updateBuildFiles h info (Some cid) st = (res, st')" and "cid \<noteq> []"
  then have "copySources h info cid (log ''Updating build files...'' None st) = (res, st')"
    by (simp add: updateBuildFiles_def Let_def falsy_def)
  from copySources_effect [OF this] copySources_stops [OF this] show ?thesis
    by auto
qed

lemma head_trace_append:
  "trace st' = trace st @ [(c, r)] \<Longrightarrow>
   head_trace st' = head_trace st @ (if tail_cmd c then [] else [(c, r)])"
  by (simp add: head_trace_def)

lemma updateBuildFiles_fresh:
  assumes "updateBuildFiles h info c st = (res, st')" and "falsy c"
  obtains
    (failed) r where
      "trace st' = trace st @ [(RunDetached, r)]" "\<not> obtained_id (RunDetached, r)"
      "res = Inl (Error ''Failed to create temporary container'')"
      "set (logs st) \<subseteq> set (logs st')"
  | (made) r cid st1 where
      "trace st1 = trace st @ [(RunDetached, r)]" "obtained_id (RunDetached, r)"
      "cid = js_trim (the (output_text r))" "set (logs st) \<subseteq> set (logs st1)"
      "copySources h info cid st1 = (res, st')"
proof -
  obtain made st1 where made: "createTempContainer h (log ''Updating build files...'' None st) = (made, st1)"
    by (cases "createTempContainer h (log ''Updating build files...'' None st)")
  from made show thesis
  proof (cases rule: createTempContainer_cases)
    case (failed r)
    then have "res = Inl (Error ''Failed to create temporary container'')" "st' = st1"
      using assms made by (auto simp: updateBuildFiles_def Let_def)
    then show ?thesis
      using failed by (intro that(1) [of r]) auto
  next
    case (made r cid)
    then have "copySources h info cid st1 = (res, st')"
      using assms \<open>createTempContainer h (log ''Updating build files...'' None st) = (made, st1)\<close>
      by (auto simp: updateBuildFiles_def Let_def)
    then show ?thesis
      using made by (intro that(2) [of st1 r cid]) auto
  qed
qed

lemma updateBuildFiles_ok:
  assumes "updateBuildFiles h info c st = (res, st')"
    and "uiDir info \<noteq> []" and "existsSync h (uiDir info)"
    and "fonts_have_targets info"
    and "all_but_pull_succeed st'"
    and "\<not> falsy c \<or> created_containers (trace st') \<noteq> created_containers (trace st)"
  shows "res = Inr ()"
proof (cases "falsy c")
  case False
  then have "copySources h info (the c) (log ''Updating build files...'' None st) = (res, st')"
    using assms(1) by (simp add: updateBuildFiles_def Let_def)
  then show ?thesis
    using assms(2-5) by (rule copySources_ok)
next
  case True
  from assms(1) True show ?thesis
  proof (cases rule: updateBuildFiles_fresh)
    case (failed r)
    then have "created_containers (trace st') = created_containers (trace st)"
      by (simp add: created_containers_def)
    then show ?thesis
      using assms(6) True by simp
  next
    case (made r cid st1)
    from made(5) assms(2-5) show ?thesis
      by (rule copySources_ok)
  qed
qed

lemma setupProject_cases:
  assumes "setupProject h info config = (res, st)"
  obtains
    (image) r1 where
      "trace st = [(ComposeBuild, r1)]" "\<not> success r1"
      "res = Inl (Error ''Failed to build Docker image'')"
  | (no_container) r1 r2 r3 where
      "trace st = [(ComposeBuild, r1), (ProbeBuildScript, r2), (RunDetached, r3)]"
      "\<not> success r2" "\<not> obtained_id (RunDetached, r3)"
      "res = Inl (Error ''Failed to create temporary container'')"
  | (clone_fails) r1 r2 r3 r4 r5 cid where
      "trace st = [(ComposeBuild, r1), (ProbeBuildScript, r2), (RunDetached, r3),
                   (GitClone cid (repositoryName config), r4), (Stop cid, r5)]"
      "\<not> success r2" "obtained_id (RunDetached, r3)" "cid = js_trim (the (output_text r3))"
      "\<not> success r4" "res = Inl (Error ''Git clone failed'')"
  | (cloned) r1 r2 r3 r4 cid st1 where
      "trace st1 = [(ComposeBuild, r1), (ProbeBuildScript, r2), (RunDetached, r3),
                    (GitClone cid (repositoryName config), r4)]"
      "\<not> success r2" "obtained_id (RunDetached, r3)" "cid = js_trim (the (output_text r3))"
      "success r4" "updateBuildFiles h info (Some cid) st1 = (res, st)"
  | (pulled) r1 r2 r3 st1 where
      "trace st1 = [(ComposeBuild, r1), (ProbeBuildScript, r2), (GitPull, r3)]"
      "success r2" "\<not> success r3 \<longrightarrow> pull_warning \<in> set (logs st1)"
      "updateBuildFiles h info None st1 = (res, st)"
proof -
  let ?s0 = "log ''Building Docker image...'' None (log ''=== Step 1/3: Setup ==='' None start)"
  obtain r1 st1 where s1: "runCommandSilent h ComposeBuild ?s0 = (r1, st1)"
    by (cases "runCommandSilent h ComposeBuild ?s0")
  let ?s1 = "log ''Checking if project is already set up...'' None
               (log ''Docker image built successfully.'' (Some LogSuccess) st1)"
  obtain r2 st2 where s2: "runCommandSilent h ProbeBuildScript ?s1 = (r2, st2)"
    by (cases "runCommandSilent h ProbeBuildScript ?s1")
  note e1 = runCommandSilent_effect [OF s1] and e2 = runCommandSilent_effect [OF s2]
  have t0: "trace ?s0 = []"
    by (simp add: start_def)
  show thesis
  proof (cases "success r1")
    case False
    then have "res = Inl (Error ''Failed to build Docker image'')" "st = st1"
      using assms s1 by (simp_all add: setupProject_def Let_def)
    then show thesis
      using False e1 t0 by (intro image [of r1]) auto
  next
    case built: True
    show thesis
    proof (cases "success r2")
      case False
      let ?s2 = "log ''First-time setup: Cloning repository from GitHub...'' None st2"
      obtain made st3 where mk: "createTempContainer h ?s2 = (made, st3)"
        by (cases "createTempContainer h ?s2")
      from mk show thesis
      proof (cases rule: createTempContainer_cases)
        case (failed r3)
        then have "res = Inl (Error ''Failed to create temporary container'')" "st = st3"
          using assms s1 s2 built False mk by (simp_all add: setupProject_def Let_def)
        then show thesis
          using failed e1 e2 t0 False by (intro no_container [of r1 r2 r3]) auto
      next
        case (made r3 cid)
        obtain r4 st4 where s4: "runCommand h (GitClone cid (repositoryName config)) st3 = (r4, st4)"
          by (cases "runCommand h (GitClone cid (repositoryName config)) st3")
        obtain r5 st5 where s5: "runCommand h (Stop cid) st4 = (r5, st5)"
          by (cases "runCommand h (Stop cid) st4")
        note e4 = runCommand_effect [OF s4] and e5 = runCommand_effect [OF s5]
        show thesis
        proof (cases "success r4")
          case True
          then have "updateBuildFiles h info (Some cid)
              (log ''Repository cloned successfully.'' (Some LogSuccess) st4) = (res, st)"
            using assms s1 s2 built False mk made(4) s4 by (simp add: setupProject_def Let_def)
          then show thesis
            using made e1 e2 e4 t0 False True
            by (intro cloned [of _ r1 r2 r3 cid r4]) auto
        next
          case broken: False
          then have "res = Inl (Error ''Git clone failed'')" "st = st5"
            using assms s1 s2 built False mk made(4) s4 s5 by (simp_all add: setupProject_def Let_def)
          then show thesis
            using made e1 e2 e4 e5 t0 False broken
            by (intro clone_fails [of r1 r2 r3 cid r4 r5]) auto
        qed
      qed
    next
      case True
      let ?s2 = "log ''Pulling latest changes from GitHub...'' None
                  (log ''Project already exists in Docker volume. Checking for updates...'' None st2)"
      obtain r3 st3 where s3: "runCommand h GitPull ?s2 = (r3, st3)"
        by (cases "runCommand h GitPull ?s2")
      note e3 = runCommand_effect [OF s3]
      let ?s3 = "if \<not> success r3
                 then log ''Git pull failed, continuing with existing code...'' (Some LogWarning) st3
                 else log ''Latest changes pulled successfully.'' (Some LogSuccess) st3"
      have "updateBuildFiles h info None ?s3 = (res, st)"
        using assms s1 s2 built True s3 by (simp add: setupProject_def Let_def)
      then show thesis
        using e1 e2 e3 t0 True
        by (intro pulled [of ?s3 r1 r2 r3]) (auto simp: pull_warning_def)
    qed
  qed
qed

lemma updateBuildFiles_summary:
  assumes "updateBuildFiles h info c st = (res, st')"
  obtains
    (reused) cid where
      "c = Some cid" "cid \<noteq> []" "head_trace st' = head_trace st"
      "fonts_have_targets info \<longrightarrow> last_cmd st' = Some (Stop cid)"
      "set (logs st) \<subseteq> set (logs st')"
  | (failed) r where
      "falsy c" "head_trace st' = head_trace st @ [(RunDetached, r)]" "\<not> obtained_id (RunDetached, r)"
      "res = Inl (Error ''Failed to create temporary container'')"
      "set (logs st) \<subseteq> set (logs st')"
  | (made) r where
      "falsy c" "head_trace st' = head_trace st @ [(RunDetached, r)]" "obtained_id (RunDetached, r)"
      "fonts_have_targets info \<longrightarrow> last_cmd st' = Some (Stop (js_trim (the (output_text r))))"
      "set (logs st) \<subseteq> set (logs st')"
proof (cases "falsy c")
  case False
  then obtain cid where c: "c = Some cid" "cid \<noteq> []"
    by (auto simp: falsy_def split: option.splits)
  from updateBuildFiles_given [of h info cid st res st'] assms c show thesis
    by (intro reused [of cid]) auto
next
  case True
  from assms True show thesis
  proof (cases rule: updateBuildFiles_fresh)
    case (failed r)
    then show ?thesis
      using True by (intro that(2) [of r]) (auto simp: head_trace_def)
  next
    case (made r cid st1)
    from copySources_effect [OF made(5)] copySources_stops [OF made(5)] show ?thesis
      using True made(1-4) by (intro that(3) [of r]) (auto simp: head_trace_def)
  qed
qed

lemma results_from_head:
  assumes "head_trace st = tr" and "\<not> tail_cmd c"
  shows "results_of c (trace st) = results_of c tr"
proof -
  have "filter (\<lambda>e. fst e = c) (trace st) = filter (\<lambda>e. fst e = c) (head_trace st)"
    unfolding head_trace_def filter_filter using assms(2)
    by (intro filter_cong) auto
  then show ?thesis
    using assms(1) by (simp add: results_of_def)
qed

lemma commands_from_head:
  assumes "head_trace st = tr" and "\<not> tail_cmd c"
  shows "c \<in> set (commands st) \<longleftrightarrow> c \<in> fst ` set tr"
  using assms by (auto simp: commands_def head_trace_def)

lemma clone_from_head:
  assumes "head_trace st = tr"
  shows "list_ex is_clone (commands st) \<longleftrightarrow> list_ex (\<lambda>e. is_clone (fst e)) tr"
proof -
  have "is_clone c \<Longrightarrow> \<not> tail_cmd c" for c
    by (cases c) auto
  then have "(\<exists>e \<in> set (trace st). is_clone (fst e)) \<longleftrightarrow> (\<exists>e \<in> set (head_trace st). is_clone (fst e))"
    unfolding head_trace_def set_filter by blast
  then show ?thesis
    using assms by (simp add: commands_def list_ex_iff)
qed

lemma created_from_head:
  assumes "head_trace st = tr"
  shows "created_containers (trace st) = created_containers tr"
proof -
  have "filter obtained_id (trace st) = filter obtained_id (head_trace st)"
    unfolding head_trace_def filter_filter
    by (rule filter_cong) (auto simp: obtained_id_def)
  then show ?thesis
    using assms by (simp add: created_containers_def)
qed

lemma not_obtained [simp]:
  "c \<noteq> RunDetached \<Longrightarrow> \<not> obtained_id (c, r)"
  by (simp add: obtained_id_def)

lemma created_containers_simps [simp]:
  "created_containers [] = []"
  "created_containers (e # tr) =
     (if obtained_id e then js_trim (the (output_text (snd e))) # created_containers tr
      else created_containers tr)"
  by (simp_all add: created_containers_def)

lemma results_of_simps [simp]:
  "results_of c [] = []"
  "results_of c (e # tr) = (if fst e = c then success (snd e) # results_of c tr else results_of c tr)"
  by (simp_all add: results_of_def)

lemma head_trace_plain:
  "trace st = tr \<Longrightarrow> list_all (\<lambda>e. \<not> tail_cmd (fst e)) tr \<Longrightarrow> head_trace st = tr"
  by (simp add: head_trace_def list_all_iff)

text \<open>
  Claim C2. In every run of \<open>setupProject\<close>: when the probe for the marker file
  \<^verbatim>\<open>/project/build.sh\<close> has succeeded, the pull command is run and no clone command is;
  and a clone command is run only when the probe has failed, and then no pull is run.
\<close>

theorem setup_branch_follows_probe:
  assumes "setupProject h project config = (res, st)"
  shows "(results_of ProbeBuildScript (trace st) = [True] \<longrightarrow>
            GitPull \<in> set (commands st) \<and> \<not> list_ex is_clone (commands st))
       \<and> (list_ex is_clone (commands st) \<longrightarrow>
            results_of ProbeBuildScript (trace st) = [False] \<and> GitPull \<notin> set (commands st))"
proof -
  have main: ?thesis if "head_trace st = tr"
    and "results_of ProbeBuildScript tr = [True] \<longrightarrow>
           GitPull \<in> fst ` set tr \<and> \<not> list_ex (\<lambda>e. is_clone (fst e)) tr"
    and "list_ex (\<lambda>e. is_clone (fst e)) tr \<longrightarrow>
           results_of ProbeBuildScript tr = [False] \<and> GitPull \<notin> fst ` set tr" for tr
    using that(2,3)
    by (simp only: results_from_head [OF that(1)] commands_from_head [OF that(1)]
        clone_from_head [OF that(1)] tail_cmd.simps simp_thms)
  from assms show ?thesis
  proof (cases rule: setupProject_cases)
    case (image r1)
    from head_trace_plain [OF image(1)] show ?thesis
      by (intro main) auto
  next
    case (no_container r1 r2 r3)
    from head_trace_plain [OF no_container(1)] show ?thesis
      using no_container(2) by (intro main) auto
  next
    case (clone_fails r1 r2 r3 r4 r5 cid)
    have "head_trace st = [(ComposeBuild, r1), (ProbeBuildScript, r2), (RunDetached, r3),
        (GitClone cid (repositoryName config), r4)]"
      using clone_fails(1) by (simp add: head_trace_def)
    then show ?thesis
      using clone_fails(2) by (intro main) auto
  next
    case (cloned r1 r2 r3 r4 cid st1)
    have h1: "head_trace st1 = trace st1"
      using cloned(1) by (simp add: head_trace_def)
    from cloned(6) show ?thesis
    proof (cases rule: updateBuildFiles_summary)
      case (reused cid')
      then show ?thesis
        using cloned(1,2) h1 by (intro main) auto
    next
      case (failed r)
      then show ?thesis
        using cloned(1,2) h1 by (intro main) auto
    next
      case (made r)
      then show ?thesis
        using cloned(1,2) h1 by (intro main) auto
    qed
  next
    case (pulled r1 r2 r3 st1)
    have h1: "head_trace st1 = trace st1"
      using pulled(1) by (simp add: head_trace_def)
    from pulled(4) show ?thesis
    proof (cases rule: updateBuildFiles_summary)
      case (reused cid')
      then show ?thesis by simp
    next
      case (failed r)
      then show ?thesis
        using pulled(1,2) h1 by (intro main) auto
    next
      case (made r)
      then show ?thesis
        using pulled(1,2) h1 by (intro main) auto
    qed
  qed
qed

text \<open>
  When every declared font has a target path, every run of \<open>setupProject\<close> in which
  \<open>createTempContainer\<close> has returned a nonblank identifier ends with \<^verbatim>\<open>docker stop\<close> of that
  identifier as its last command, whether it succeeds or throws one of the library's own
  errors.
\<close>

lemma setup_stops_container:
  assumes "setupProject h project config = (res, st)"
    and "fonts_have_targets project"
    and "containerId \<in> set (created_containers (trace st))"
    and "containerId \<noteq> []"
  shows "last_cmd st = Some (Stop containerId)"
  using assms(1)
proof (cases rule: setupProject_cases)
  case (image r1)
  then show ?thesis
    using assms(3) by simp
next
  case (no_container r1 r2 r3)
  then show ?thesis
    using assms(3) by simp
next
  case (clone_fails r1 r2 r3 r4 r5 cid)
  then show ?thesis
    using assms(3) by (simp add: last_cmd_def)
next
  case (cloned r1 r2 r3 r4 cid st1)
  have h1: "head_trace st1 = trace st1"
    using cloned(1) by (simp add: head_trace_def)
  from cloned(6) show ?thesis
  proof (cases rule: updateBuildFiles_summary)
    case (reused cid')
    then show ?thesis
      using assms(2,3) cloned(1,3,4) h1 by (simp add: created_from_head [of st])
  next
    case (failed r)
    then show ?thesis
      using assms(3,4) cloned(1,3,4) h1 by (simp add: created_from_head [of st] falsy_def)
  next
    case (made r)
    then show ?thesis
      using assms(2,3,4) cloned(1,3,4) h1 by (simp add: created_from_head [of st] falsy_def)
  qed
next
  case (pulled r1 r2 r3 st1)
  have h1: "head_trace st1 = trace st1"
    using pulled(1) by (simp add: head_trace_def)
  from pulled(4) show ?thesis
  proof (cases rule: updateBuildFiles_summary)
    case (reused cid')
    then show ?thesis by simp
  next
    case (failed r)
    then show ?thesis
      using assms(3,4) pulled(1) h1 by (simp add: created_from_head [of st])
  next
    case (made r)
    then show ?thesis
      using assms(2,3,4) pulled(1) h1 by (simp add: created_from_head [of st])
  qed
qed

lemma clone_failed_from_head:
  assumes "head_trace st = tr"
  shows "clone_failed st \<longleftrightarrow> list_ex (\<lambda>e. is_clone (fst e) \<and> \<not> success (snd e)) tr"
proof -
  have "is_clone c \<Longrightarrow> \<not> tail_cmd c" for c
    by (cases c) auto
  then have "(\<exists>e \<in> set (trace st). is_clone (fst e) \<and> \<not> success (snd e))
      \<longleftrightarrow> (\<exists>e \<in> set (head_trace st). is_clone (fst e) \<and> \<not> success (snd e))"
    unfolding head_trace_def set_filter by blast
  then show ?thesis
    using assms by (simp add: clone_failed_def list_ex_iff)
qed

text \<open>
  Claim C4. A failed clone ends \<open>setupProject\<close> with the error \<^verbatim>\<open>Git clone failed\<close>. A failed
  pull does not: the warning is logged, the run goes on to create the helper container
  for step 4, and when the UI directory is given and exists, every declared font has a
  target path, the container is obtained and no other command fails, the run ends
  without an error.
\<close>

theorem pull_failure_tolerated_clone_failure_fatal:
  assumes "setupProject h project config = (res, st)"
  shows "(clone_failed st \<longrightarrow> res = Inl (Error ''Git clone failed''))
       \<and> (results_of GitPull (trace st) = [False] \<longrightarrow>
            pull_warning \<in> set (logs st)
          \<and> RunDetached \<in> set (commands st)
          \<and> (uiDir project \<noteq> [] \<and> existsSync h (uiDir project)
               \<and> fonts_have_targets project
               \<and> all_but_pull_succeed st \<and> created_containers (trace st) \<noteq> []
             \<longrightarrow> res = Inr ()))"
proof -
  have no_pull: ?thesis if "head_trace st = tr"
    and "list_ex (\<lambda>e. is_clone (fst e) \<and> \<not> success (snd e)) tr \<longrightarrow> res = Inl (Error ''Git clone failed'')"
    and "results_of GitPull tr = []" for tr
    using that(2,3)
    by (simp add: results_from_head [OF that(1)] clone_failed_from_head [OF that(1)])
  from assms show ?thesis
  proof (cases rule: setupProject_cases)
    case (image r1)
    from head_trace_plain [OF image(1)] show ?thesis
      by (intro no_pull) auto
  next
    case (no_container r1 r2 r3)
    from head_trace_plain [OF no_container(1)] show ?thesis
      by (intro no_pull) auto
  next
    case (clone_fails r1 r2 r3 r4 r5 cid)
    have "head_trace st = [(ComposeBuild, r1), (ProbeBuildScript, r2), (RunDetached, r3),
        (GitClone cid (repositoryName config), r4)]"
      using clone_fails(1) by (simp add: head_trace_def)
    then show ?thesis
      using clone_fails(6) by (intro no_pull) auto
  next
    case (cloned r1 r2 r3 r4 cid st1)
    have h1: "head_trace st1 = trace st1"
      using cloned(1) by (simp add: head_trace_def)
    from cloned(6) show ?thesis
    proof (cases rule: updateBuildFiles_summary)
      case (reused cid')
      then show ?thesis
        using cloned(1,5) h1 by (intro no_pull) auto
    next
      case (failed r)
      then show ?thesis
        using cloned(1,5) h1 by (intro no_pull) auto
    next
      case (made r)
      then show ?thesis
        using cloned(1,5) h1 by (intro no_pull) auto
    qed
  next
    case (pulled r1 r2 r3 st1)
    have h1: "head_trace st1 = trace st1"
      using pulled(1) by (simp add: head_trace_def)
    have c1: "created_containers (trace st1) = []"
      using pulled(1) by simp
    have ok: "res = Inr ()"
      if "uiDir project \<noteq> []" "existsSync h (uiDir project)" "fonts_have_targets project"
        "all_but_pull_succeed st" "created_containers (trace st) \<noteq> []"
      using pulled(4) that c1 by (intro updateBuildFiles_ok [of h project None st1 res st]) auto
    have hd: "\<exists>r. head_trace st = [(ComposeBuild, r1), (ProbeBuildScript, r2), (GitPull, r3), (RunDetached, r)]"
      "set (logs st1) \<subseteq> set (logs st)"
      using pulled(4) pulled(1) h1
      by (cases rule: updateBuildFiles_summary; simp)+
    then obtain r where hd': "head_trace st = [(ComposeBuild, r1), (ProbeBuildScript, r2), (GitPull, r3), (RunDetached, r)]"
      by blast
    show ?thesis
      using ok pulled(3) hd(2)
      by (auto simp: results_from_head [OF hd'] clone_failed_from_head [OF hd']
          commands_from_head [OF hd'])
  qed
qed

lemma extractFiles_step:
  assumes "extractFiles h out cid (file # rest) st = (res, st')"
  obtains
    (copied) r st1 where
      "trace st1 = trace st @ [(CopyOut cid file (join_path h out file), r)]" "success r"
      "set (logs st) \<subseteq> set (logs st1)" "extractFiles h out cid rest st1 = (res, st')"
  | (skipped) r st1 where
      "file = ''index.data''"
      "trace st1 = trace st @ [(CopyOut cid file (join_path h out file), r)]" "\<not> success r"
      "skipped_notice \<in> set (logs st1)"
      "set (logs st) \<subseteq> set (logs st1)" "extractFiles h out cid rest st1 = (res, st')"
  | (failed) r r' where
      "file \<noteq> ''index.data''"
      "trace st' = trace st @ [(CopyOut cid file (join_path h out file), r), (Stop cid, r')]"
      "\<not> success r" "res = Inl (Error (''Failed to extract '' @ file))"
proof -
  let ?cp = "CopyOut cid file (join_path h out file)"
  obtain r st1 where s1: "runCommand h ?cp st = (r, st1)"
    by (cases "runCommand h ?cp st")
  obtain r' st2 where s2: "runCommand h (Stop cid) st1 = (r', st2)"
    by (cases "runCommand h (Stop cid) st1")
  note e1 = runCommand_effect [OF s1] and e2 = runCommand_effect [OF s2]
  show thesis
  proof (cases "success r")
    case True
    let ?st = "case statSync h (join_path h out file) of
                Inr bytes \<Rightarrow> log (''Extracted '' @ file @ '': '' @ bytes @ '' bytes'') None st1
              | Inl message \<Rightarrow> log (''Could not stat '' @ file @ '': '' @ message) (Some LogWarning) st1"
    have "extractFiles h out cid rest ?st = (res, st')"
      using assms s1 True by (simp add: Let_def)
    moreover have "trace ?st = trace st1" "set (logs st1) \<subseteq> set (logs ?st)"
      by (auto split: sum.splits)
    ultimately show thesis
      using True e1 by (intro copied [of ?st r]) auto
  next
    case False
    show thesis
    proof (cases "file = ''index.data''")
      case True
      let ?st = "log (file @ '' not found (optional file, skipping)'') None st1"
      have "extractFiles h out cid rest ?st = (res, st')"
        using assms s1 False True by (simp add: Let_def)
      then show thesis
        using True False e1 by (intro skipped [of ?st r]) (auto simp: skipped_notice_def)
    next
      case other: False
      then have "res = Inl (Error (''Failed to extract '' @ file))" "st' = st2"
        using assms s1 s2 False by (simp_all add: Let_def)
      then show thesis
        using other False e1 e2 by (intro failed [of r r']) auto
    qed
  qed
qed

lemma extractFiles_artifacts:
  assumes "extractFiles h out cid artifact_files st = (res, st')"
  obtains
    (html_failed) r1 r' where
      "trace st' = trace st @ [(CopyOut cid ''index.html'' (join_path h out ''index.html''), r1),
                               (Stop cid, r')]"
      "\<not> success r1" "res = Inl (Error (''Failed to extract '' @ ''index.html''))"
  | (js_failed) r1 r2 r' where
      "trace st' = trace st @ [(CopyOut cid ''index.html'' (join_path h out ''index.html''), r1),
                               (CopyOut cid ''index.js'' (join_path h out ''index.js''), r2),
                               (Stop cid, r')]"
      "success r1" "\<not> success r2" "res = Inl (Error (''Failed to extract '' @ ''index.js''))"
  | (wasm_failed) r1 r2 r3 r' where
      "trace st' = trace st @ [(CopyOut cid ''index.html'' (join_path h out ''index.html''), r1),
                               (CopyOut cid ''index.js'' (join_path h out ''index.js''), r2),
                               (CopyOut cid ''index.wasm'' (join_path h out ''index.wasm''), r3),
                               (Stop cid, r')]"
      "success r1" "success r2" "\<not> success r3"
      "res = Inl (Error (''Failed to extract '' @ ''index.wasm''))"
  | (extracted) r1 r2 r3 r4 where
      "trace st' = trace st @ [(CopyOut cid ''index.html'' (join_path h out ''index.html''), r1),
                               (CopyOut cid ''index.js'' (join_path h out ''index.js''), r2),
                               (CopyOut cid ''index.wasm'' (join_path h out ''index.wasm''), r3),
                               (CopyOut cid ''index.data'' (join_path h out ''index.data''), r4)]"
      "success r1" "success r2" "success r3" "res = Inr ()"
      "\<not> success r4 \<longrightarrow> skipped_notice \<in> set (logs st')"
      "set (logs st) \<subseteq> set (logs st')"
proof -
  have start: "extractFiles h out cid [''index.html'', ''index.js'', ''index.wasm'', ''index.data''] st = (res, st')"
    using assms by (simp add: artifact_files_def)
  from start show thesis
  proof (cases rule: extractFiles_step)
    case (failed r1 r')
    then show ?thesis by (intro html_failed [of r1 r']) auto
  next
    case (skipped r1 st1)
    then show ?thesis by simp
  next
    case html: (copied r1 st1)
    from html(4) show ?thesis
    proof (cases rule: extractFiles_step)
      case (failed r2 r')
      then show ?thesis using html by (intro js_failed [of r1 r2 r']) auto
    next
      case (skipped r2 st2)
      then show ?thesis by simp
    next
      case js: (copied r2 st2)
      from js(4) show ?thesis
      proof (cases rule: extractFiles_step)
        case (failed r3 r')
        then show ?thesis using html js by (intro wasm_failed [of r1 r2 r3 r']) auto
      next
        case (skipped r3 st3)
        then show ?thesis by simp
      next
        case wasm: (copied r3 st3)
        from wasm(4) show ?thesis
        proof (cases rule: extractFiles_step)
          case (failed r4 r')
          then show ?thesis by simp
        next
          case (skipped r4 st4)
          then show ?thesis
            using html js wasm by (intro extracted [of r1 r2 r3 r4]) auto
        next
          case (copied r4 st4)
          then show ?thesis
            using html js wasm by (intro extracted [of r1 r2 r3 r4]) auto
        qed
      qed
    qed
  qed
qed

lemma copy_results_simps [simp]:
  "copy_results file [] = []"
  "copy_results file (e # tr) =
     (if copies file (fst e) then success (snd e) # copy_results file tr else copy_results file tr)"
  by (simp_all add: copy_results_def)

lemma extractBuild_cases:
  assumes "extractBuild h out config = (res, st)"
  obtains
    (unprepared) "trace st = []" "\<exists>message. res = Inl (Error message)"
  | (no_container) r where
      "trace st = [(RunDetached, r)]" "res = Inl (Error ''Failed to create temporary container'')"
  | (failed) cid tr st1 name where
      "extractFiles h out cid artifact_files st1 = (res, st)" "trace st1 = [(RunDetached, tr)]"
      "res = Inl (Error (''Failed to extract '' @ name))"
  | (extracted) cid tr st1 st2 r' where
      "extractFiles h out cid artifact_files st1 = (Inr (), st2)" "trace st1 = [(RunDetached, tr)]"
      "trace st = trace st2 @ [(Stop cid, r')]" "set (logs st2) \<subseteq> set (logs st)" "res = Inr ()"
proof -
  let ?s0 = "log ''Cleaning output directory...'' None
              (log (''Output path: '' @ out) None (log ''=== Step 3/3: Extract ==='' None start))"
  have t0: "trace ?s0 = []"
    by (simp add: start_def)
  show thesis
  proof (cases "existsSync h out \<and> rmSync h out \<noteq> None")
    case True
    then obtain message where "(if existsSync h out then rmSync h out else None) = Some message"
      by auto
    then have "trace st = []" "\<exists>message. res = Inl (Error message)"
      using assms t0 by (auto simp: extractBuild_def Let_def start_def)
    then show thesis by (rule unprepared)
  next
    case False
    then have removed: "(if existsSync h out then rmSync h out else None) = None"
      by auto
    let ?s1 = "if existsSync h out then log ''Output directory cleaned.'' None ?s0 else ?s0"
    have t1: "trace ?s1 = []"
      using t0 by simp
    show thesis
    proof (cases "mkdirSync h out")
      case (Some message)
      then have "trace st = []" "\<exists>message. res = Inl (Error message)"
        using assms t0 by (auto simp: extractBuild_def Let_def start_def removed)
      then show thesis by (rule unprepared)
    next
      case None
      let ?s2 = "log ''Extracting build files from Docker volume...'' None ?s1"
      obtain made st3 where mk: "createTempContainer h ?s2 = (made, st3)"
        by (cases "createTempContainer h ?s2")
      have red: "extractBuild h out config =
          (case createTempContainer h ?s2 of
             (Inl e, st) \<Rightarrow> (Inl e, st)
           | (Inr containerId, st) \<Rightarrow>
               (let st = log (''Container ID: '' @ containerId) None st
                in case extractFiles h out containerId artifact_files st of
                     (Inl e, st) \<Rightarrow> (Inl e, st)
                   | (Inr _, st) \<Rightarrow>
                       (let (_, st) = runCommand h (Stop containerId) st
                        in (Inr (),
                            log (''Build files extracted successfully in ''
                                 @ duration h @ ''s!'') (Some LogSuccess) st))))"
        using None by (simp add: extractBuild_def Let_def removed)
      from mk show thesis
      proof (cases rule: createTempContainer_cases)
        case (failed r)
        then have "res = Inl (Error ''Failed to create temporary container'')" "st = st3"
          using assms mk unfolding red by simp_all
        then show ?thesis
          using failed t1 by (intro no_container [of r]) (simp add: start_def)
      next
        case (made r cid)
        let ?s3 = "log (''Container ID: '' @ cid) None st3"
        have t3: "trace ?s3 = [(RunDetached, r)]"
          using made(1) t1 by (simp add: start_def)
        obtain got st4 where ex: "extractFiles h out cid artifact_files ?s3 = (got, st4)"
          by (cases "extractFiles h out cid artifact_files ?s3")
        show ?thesis
        proof (cases got)
          case (Inl e)
          then have out: "res = Inl e" "st = st4"
            using assms mk made(4) ex unfolding red by (simp_all add: Let_def)
          from ex Inl obtain name where "e = Error (''Failed to extract '' @ name)"
            by (cases rule: extractFiles_artifacts) auto
          then show ?thesis
            using ex Inl out t3 by (intro that(3) [of cid ?s3 r name]) auto
        next
          case (Inr u)
          obtain r' st5 where s5: "runCommand h (Stop cid) st4 = (r', st5)"
            by (cases "runCommand h (Stop cid) st4")
          note e5 = runCommand_effect [OF s5]
          have "res = Inr ()"
            "st = log (''Build files extracted successfully in '' @ duration h @ ''s!'') (Some LogSuccess) st5"
            using assms mk made(4) ex Inr s5 unfolding red by (simp_all add: Let_def)
          then show ?thesis
            using ex Inr t3 e5 by (intro that(4) [of cid ?s3 st4 r r']) auto
        qed
      qed
    qed
  qed
qed

text \<open>
  Claim C6. A run of \<open>extractBuild\<close> in which \<^verbatim>\<open>index.html\<close>, \<^verbatim>\<open>index.js\<close> and \<^verbatim>\<open>index.wasm\<close>
  have been copied ends without an error, and no other run does, also when the copy of
  \<^verbatim>\<open>index.data\<close> has failed: that failure is logged without a type, which both callers
  show as info, and skipped. A failed copy of any of the three other files ends the run
  with the error naming it.
\<close>

theorem extract_required_and_optional:
  assumes "extractBuild h dir config = (res, st)"
  shows "(copy_results ''index.html'' (trace st) = [True]
          \<and> copy_results ''index.js'' (trace st) = [True]
          \<and> copy_results ''index.wasm'' (trace st) = [True] \<longleftrightarrow> res = Inr ())
       \<and> (copy_results ''index.data'' (trace st) = [False] \<longrightarrow>
            res = Inr () \<and> skipped_notice \<in> set (logs st)
            \<and> shown_type (fst skipped_notice) = LogInfo)
       \<and> (\<forall>name. name \<in> {''index.html'', ''index.js'', ''index.wasm''}
            \<and> copy_results name (trace st) = [False] \<longrightarrow>
            res = Inl (Error (''Failed to extract '' @ name)))"
  using assms
proof (cases rule: extractBuild_cases)
  case unprepared
  then show ?thesis by auto
next
  case (no_container r)
  then show ?thesis by auto
next
  case (failed cid tr st1 name)
  from failed(1) show ?thesis
    by (cases rule: extractFiles_artifacts)
      (use failed(2,3) in \<open>auto simp: skipped_notice_def shown_type_def\<close>)
next
  case (extracted cid tr st1 st2 r')
  from extracted(1) show ?thesis
    by (cases rule: extractFiles_artifacts)
      (use extracted(2-5) in \<open>auto simp: skipped_notice_def shown_type_def\<close>)
qed

lemmas run_defs =
  setupProject_def updateBuildFiles_def copySources_def createTempContainer_def
  extractBuild_def artifact_files_def
  runCommand_def runCommandSilent_def machine_def demo_project_def demo_config_def
  ok_result_def failed_result_def falsy_def start_def log_def Let_def
  js_trim_def is_space_def

text \<open>
  On a machine where everything succeeds the run pulls and does not clone; on one where
  the probe fails it clones.
\<close>

theorem setup_branch_follows_probe_witness:
  "GitPull \<in> set (commands (snd (setupProject (machine []) demo_project demo_config)))
   \<and> \<not> list_ex is_clone (commands (snd (setupProject (machine []) demo_project demo_config)))
   \<and> results_of ProbeBuildScript
        (trace (snd (setupProject (machine [command_line ProbeBuildScript]) demo_project demo_config))) = [False]"
proof -
  let ?again = "setupProject (machine []) demo_project demo_config"
  let ?first = "setupProject (machine [command_line ProbeBuildScript]) demo_project demo_config"
  have probe: "results_of ProbeBuildScript (trace (snd ?again)) = [True]"
    by (simp add: run_defs results_of_def)
  have clone: "list_ex is_clone (commands (snd ?first))"
    by (simp add: run_defs commands_def)
  have "?again = (fst ?again, snd ?again)" "?first = (fst ?first, snd ?first)"
    by simp_all
  from setup_branch_follows_probe [OF this(1)] setup_branch_follows_probe [OF this(2)]
  show ?thesis
    using probe clone by blast
qed

text \<open>
  The container \<^verbatim>\<open>4f2a\<close> is stopped last both in a run that succeeds and in one whose copy
  of the UI directory fails.
\<close>

lemma setup_stops_container_example:
  "last_cmd (snd (setupProject (machine []) demo_project demo_config)) = Some (Stop ''4f2a'')
   \<and> last_cmd (snd (setupProject (machine [command_line (CopyUiDir ''/p/src/ui'' ''4f2a'')])
         demo_project demo_config)) = Some (Stop ''4f2a'')"
proof -
  let ?good = "setupProject (machine []) demo_project demo_config"
  let ?bad = "setupProject (machine [command_line (CopyUiDir ''/p/src/ui'' ''4f2a'')])
         demo_project demo_config"
  have made: "''4f2a'' \<in> set (created_containers (trace (snd ?good)))"
    "''4f2a'' \<in> set (created_containers (trace (snd ?bad)))"
    by (simp_all add: run_defs created_containers_def obtained_id_def)
  have named: "''4f2a'' \<noteq> []"
    by simp
  have typed: "fonts_have_targets demo_project"
    by (simp add: fonts_have_targets_def demo_project_def)
  have "?good = (fst ?good, snd ?good)" "?bad = (fst ?bad, snd ?bad)"
    by simp_all
  from setup_stops_container [OF this(1) typed made(1) named]
    setup_stops_container [OF this(2) typed made(2) named]
  show ?thesis
    by (rule conjI)
qed

text \<open>
  Claim C5, at the failing input. The project declares a FreeType font whose entry has no
  target path, and every command succeeds. The run pulls, creates the helper container
  \<^verbatim>\<open>4f2a\<close>, copies the UI directory and creates the fonts directory; then
  \<^verbatim>\<open>path.posix.dirname\<close> throws inside the loop over the fonts. \<open>setupProject\<close> ends with that
  \<^verbatim>\<open>TypeError\<close>, its last command is the \<^verbatim>\<open>mkdir\<close> of the fonts directory, and no
  \<^verbatim>\<open>docker stop\<close> has been issued for the container it created.
\<close>

theorem setup_leaves_container_running:
  "fst (setupProject (machine []) untargeted_project demo_config) = Inl (TypeError path_not_a_string)
   \<and> created_containers (trace (snd (setupProject (machine []) untargeted_project demo_config)))
       = [''4f2a'']
   \<and> last_cmd (snd (setupProject (machine []) untargeted_project demo_config))
       = Some (MkdirFonts ''4f2a'')
   \<and> Stop ''4f2a'' \<notin> set (commands (snd (setupProject (machine []) untargeted_project demo_config)))"
  by (simp add: run_defs untargeted_project_def created_containers_def obtained_id_def
      last_cmd_def commands_def)

text \<open>
  With only the pull failing the setup succeeds and the warning is logged; with the probe
  and the clone failing the setup fails.
\<close>

theorem pull_failure_tolerated_clone_failure_fatal_witness:
  "fst (setupProject (machine [command_line GitPull]) demo_project demo_config) = Inr ()
   \<and> pull_warning \<in> set (logs (snd (setupProject (machine [command_line GitPull]) demo_project demo_config)))
   \<and> fst (setupProject
         (machine [command_line ProbeBuildScript,
                   command_line (GitClone ''4f2a'' ''lvgl-simulator-for-studio-docker-build'')])
         demo_project demo_config) = Inl (Error ''Git clone failed'')"
proof -
  let ?h = "machine [command_line GitPull]"
  let ?pull = "setupProject ?h demo_project demo_config"
  let ?clone = "setupProject
         (machine [command_line ProbeBuildScript,
                   command_line (GitClone ''4f2a'' ''lvgl-simulator-for-studio-docker-build'')])
         demo_project demo_config"
  have pull: "results_of GitPull (trace (snd ?pull)) = [False]"
    by (simp add: run_defs results_of_def)
  have rest: "uiDir demo_project \<noteq> [] \<and> existsSync ?h (uiDir demo_project)
      \<and> fonts_have_targets demo_project
      \<and> all_but_pull_succeed (snd ?pull) \<and> created_containers (trace (snd ?pull)) \<noteq> []"
    by (simp add: run_defs all_but_pull_succeed_def created_containers_def obtained_id_def
        fonts_have_targets_def)
  have clone: "clone_failed (snd ?clone)"
    by (simp add: run_defs clone_failed_def)
  have "?pull = (fst ?pull, snd ?pull)" "?clone = (fst ?clone, snd ?clone)"
    by simp_all
  from pull_failure_tolerated_clone_failure_fatal [OF this(1)]
    pull_failure_tolerated_clone_failure_fatal [OF this(2)]
  show ?thesis
    using pull rest clone by blast
qed

text \<open>
  Without \<^verbatim>\<open>index.data\<close> the extraction succeeds with the notice; without \<^verbatim>\<open>index.wasm\<close> it
  fails.
\<close>

theorem extract_required_and_optional_witness:
  "fst (extractBuild (machine [command_line (CopyOut ''4f2a'' ''index.data'' ''/out/index.data'')])
         ''/out'' demo_config) = Inr ()
   \<and> skipped_notice \<in> set (logs (snd (extractBuild
         (machine [command_line (CopyOut ''4f2a'' ''index.data'' ''/out/index.data'')])
         ''/out'' demo_config)))
   \<and> fst (extractBuild (machine [command_line (CopyOut ''4f2a'' ''index.wasm'' ''/out/index.wasm'')])
         ''/out'' demo_config) = Inl (Error ''Failed to extract index.wasm'')"
proof -
  let ?nodata = "extractBuild (machine [command_line (CopyOut ''4f2a'' ''index.data'' ''/out/index.data'')])
         ''/out'' demo_config"
  let ?nowasm = "extractBuild (machine [command_line (CopyOut ''4f2a'' ''index.wasm'' ''/out/index.wasm'')])
         ''/out'' demo_config"
  have data: "copy_results ''index.data'' (trace (snd ?nodata)) = [False]"
    by (simp add: run_defs copy_results_def)
  have wasm: "copy_results ''index.wasm'' (trace (snd ?nowasm)) = [False]"
    by (simp add: run_defs copy_results_def)
  have "?nodata = (fst ?nodata, snd ?nodata)" "?nowasm = (fst ?nowasm, snd ?nowasm)"
    by simp_all
  from extract_required_and_optional [OF this(1)] extract_required_and_optional [OF this(2)]
  show ?thesis
    using data wasm by auto
qed


section \<open>Properties of the process supervisor\<close>

text \<open>
  After an abort the timer never signals the aborted child: the handler has cleared the
  variable the timer reads, and has set the child's \<^verbatim>\<open>killed\<close> flag by sending \<^verbatim>\<open>SIGTERM\<close>.
\<close>

lemma abort_sends_term:
  "currentDockerProcess s = Some p \<Longrightarrow> \<not> ended (children s p) \<Longrightarrow>
   received (children (snd (abort_operation s)) p) = received (children s p) @ [SIGTERM]"
  by (simp add: abort_operation_def kill_def)

lemma abort_timer_idle:
  "currentDockerProcess s = Some p \<Longrightarrow>
   children (abort_timer_fires (snd (abort_operation s))) = children (snd (abort_operation s))"
  by (simp add: abort_operation_def abort_timer_fires_def Let_def)

text \<open>
  Claim C3, at the failing input. For a child that does not end on \<^verbatim>\<open>SIGTERM\<close>, after the
  abort and the timer the child has received \<^verbatim>\<open>SIGTERM\<close> and nothing else, has not ended, no
  timer is armed any more, and the promise of the run is not resolved.
\<close>

theorem abort_never_escalates:
  "received (children aborted_stubborn_run 0) = [SIGTERM]
   \<and> \<not> ended (children aborted_stubborn_run 0)
   \<and> armed_timers aborted_stubborn_run = 0
   \<and> currentDockerProcess aborted_stubborn_run = None
   \<and> resolved aborted_stubborn_run = []"
  by (simp add: aborted_stubborn_run_def abort_timer_fires_def abort_operation_def
      runDockerCommand_spawn_def idle_def fresh_child_def kill_def Let_def)


section \<open>Properties of the renderer\<close>

lemma logMessage_fields [simp]:
  "projectPath (logMessage t x s) = projectPath s"
  "projectInfo (logMessage t x s) = projectInfo s"
  "setupComplete (logMessage t x s) = setupComplete s"
  "buildComplete (logMessage t x s) = buildComplete s"
  "testRunning (logMessage t x s) = testRunning s"
  "operationRunning (logMessage t x s) = operationRunning s"
  "outputPath (logMessage t x s) = outputPath s"
  "testUrl (logMessage t x s) = testUrl s"
  "fileChangedSinceSetup (logMessage t x s) = fileChangedSinceSetup s"
  "setupStatus (logMessage t x s) = setupStatus s"
  "buildStatus (logMessage t x s) = buildStatus s"
  "testStatus (logMessage t x s) = testStatus s"
  "notificationShown (logMessage t x s) = notificationShown s"
  "messages (logMessage t x s) = messages s @ [(t, x)]"
  by (simp_all add: logMessage_def)

lemma updateUI_fields [simp]:
  "projectPath (updateUI s) = projectPath s"
  "projectInfo (updateUI s) = projectInfo s"
  "setupComplete (updateUI s) = setupComplete s"
  "buildComplete (updateUI s) = buildComplete s"
  "testRunning (updateUI s) = testRunning s"
  "operationRunning (updateUI s) = operationRunning s"
  "outputPath (updateUI s) = outputPath s"
  "testUrl (updateUI s) = testUrl s"
  "fileChangedSinceSetup (updateUI s) = fileChangedSinceSetup s"
  "notificationShown (updateUI s) = notificationShown s"
  "messages (updateUI s) = messages s"
  by (simp_all add: updateUI_def)

lemma updateUI_id:
  "operationRunning s \<or> testRunning s \<or> projectInfo s \<noteq> None \<Longrightarrow> updateUI s = s"
  by (auto simp: updateUI_def)

lemma updateUI_badges:
  "fst (buildStatus (updateUI s)) = InProgress \<Longrightarrow> fst (buildStatus s) = InProgress"
  "fst (testStatus (updateUI s)) = InProgress \<Longrightarrow> fst (testStatus s) = InProgress"
  by (auto simp: updateUI_def split: if_splits)

lemma stage_order_logMessage [simp]: "stage_order (logMessage t x s) = stage_order s"
  by (simp add: stage_order_def build_running_def test_running_def)

lemma settled_logMessage [simp]: "settled (logMessage t x s) = settled s"
  by (simp add: settled_def)

lemma stage_order_updateUI: "stage_order s \<Longrightarrow> stage_order (updateUI s)"
  using updateUI_badges [of s]
  by (auto simp: stage_order_def build_running_def test_running_def)

lemma settled_updateUI: "settled s \<Longrightarrow> settled (updateUI s)"
  using updateUI_badges [of s] by (auto simp: settled_def)

lemma settled_stage_order: "settled s \<Longrightarrow> stage_order s"
  by (simp add: settled_def stage_order_def build_running_def test_running_def)

lemmas order_defs = stage_order_def build_running_def test_running_def settled_def

text \<open>Stopping a running test: what the operations that begin with it rely on.\<close>

lemma stop_if_running_states:
  assumes "settled s"
  shows "list_all stage_order (stop_if_running s)"
    and "settled (final s (stop_if_running s))"
    and "\<not> testRunning (final s (stop_if_running s))"
    and "setupComplete (final s (stop_if_running s)) = setupComplete s"
    and "buildComplete (final s (stop_if_running s)) = buildComplete s"
    and "projectInfo (final s (stop_if_running s)) = projectInfo s"
    and "projectPath (final s (stop_if_running s)) = projectPath s"
    and "fileChangedSinceSetup (final s (stop_if_running s)) = fileChangedSinceSetup s"
proof -
  let ?t = "updateUI (logMessage ''info'' ''Test server stopped.''
        (s\<lparr>testRunning := False, testUrl := None, testStatus := (Pending, [])\<rparr>))"
  have "settled (s\<lparr>testRunning := False, testUrl := None, testStatus := (Pending, [])\<rparr>)"
    using assms by (simp add: settled_def)
  then have t: "settled ?t"
    by (intro settled_updateUI) simp
  have f: "final s (stop_if_running s) = (if testRunning s then ?t else s)"
    by (simp add: stop_if_running_def stopTest_def final_def)
  show "list_all stage_order (stop_if_running s)"
    using assms t by (simp add: stop_if_running_def stopTest_def settled_stage_order)
  show "settled (final s (stop_if_running s))"
    using assms t by (simp add: f)
  show "\<not> testRunning (final s (stop_if_running s))"
    "setupComplete (final s (stop_if_running s)) = setupComplete s"
    "buildComplete (final s (stop_if_running s)) = buildComplete s"
    "projectInfo (final s (stop_if_running s)) = projectInfo s"
    "projectPath (final s (stop_if_running s)) = projectPath s"
    "fileChangedSinceSetup (final s (stop_if_running s)) = fileChangedSinceSetup s"
    by (simp_all add: f)
qed

lemma final_simps [simp]:
  "final s [] = s"
  "final s (x # xs) = final x xs"
  "final s (xs @ y # ys) = final y ys"
  by (simp_all add: final_def)

lemma final_append2: "ys \<noteq> [] \<Longrightarrow> final s (xs @ ys) = final s ys"
  by (simp add: final_def)

lemma runBuild_states:
  assumes "settled s"
  shows "list_all stage_order (runBuild ok s) \<and> settled (final s (runBuild ok s))"
proof (cases "projectInfo s = None \<or> \<not> setupComplete s")
  case True
  then show ?thesis using assms by (simp add: runBuild_def runBuild_begin_def runBuild_end_def)
next
  case False
  then obtain info where info: "projectInfo s = Some info" and ready: "setupComplete s"
    by auto
  note stop = stop_if_running_states [OF assms]
  show ?thesis
    using stop(1,3-6) stop(2) [unfolded settled_def]
    by (simp add: runBuild_def runBuild_begin_def runBuild_end_def Let_def updateUI_id order_defs info ready)
qed

lemma runTest_states:
  assumes "settled s"
  shows "list_all stage_order (runTest x y s) \<and> settled (final s (runTest x y s))"
proof (cases "projectInfo s = None \<or> \<not> buildComplete s")
  case True
  then show ?thesis using assms by (simp add: runTest_def runTest_begin_def runTest_extracted_def runTest_served_def)
next
  case False
  then obtain info where info: "projectInfo s = Some info" and ready: "buildComplete s"
    by auto
  show ?thesis
    using assms [unfolded settled_def]
    by (simp add: runTest_def runTest_begin_def runTest_extracted_def runTest_served_def Let_def updateUI_id order_defs info ready split: option.splits)
qed

lemma setup_stage_states:
  assumes "settled s" and "projectInfo s \<noteq> None" and "\<not> testRunning s"
  shows "list_all stage_order (setup_stage ok s) \<and> settled (final s (setup_stage ok s))"
  using assms(2,3) assms(1) [unfolded settled_def]
  by (simp add: setup_stage_def Let_def updateUI_id order_defs)

lemma runSetup_states:
  assumes "settled s"
  shows "list_all stage_order (runSetup r ok s) \<and> settled (final s (runSetup r ok s))"
proof (cases "projectInfo s")
  case None
  then show ?thesis using assms by (simp add: runSetup_def)
next
  case (Some info)
  note stop = stop_if_running_states [OF assms]
  let ?s1 = "final s (stop_if_running s)"
  have s1: "projectInfo ?s1 \<noteq> None"
    using Some stop(6) by simp
  show ?thesis
  proof (cases "truthy (projectPath ?s1)")
    case False
    then have run: "runSetup r ok s = stop_if_running s @ setup_stage ok ?s1"
      using Some by (simp add: runSetup_def Let_def)
    have "setup_stage ok ?s1 \<noteq> []"
      by (simp add: setup_stage_def Let_def)
    then show ?thesis
      using setup_stage_states [OF stop(2) s1 stop(3), of ok] stop(1)
      by (simp add: run final_append2 final_def)
  next
    case True
    let ?s2 = "logMessage ''info'' ''Re-reading project file for latest settings...'' ?s1"
    have s2: "settled ?s2" "stage_order ?s2"
      using stop(2) by (simp_all add: settled_stage_order)
    show ?thesis
    proof (cases r)
      case (ReadFailed e)
      then have run: "runSetup r ok s = stop_if_running s @
          [?s2, logMessage ''error'' (''Failed to read project: '' @ e) ?s2]"
        using Some True by (simp add: runSetup_def Let_def)
      show ?thesis
        using s2 stop(1) by (simp add: run)
    next
      case (ReadOk result)
      let ?s3 = "logMessage ''success'' (''Detected project: '' @ info_projectName result
                             @ '' (LVGL '' @ info_lvglVersion result @ '')'')
                           (?s2\<lparr>projectInfo := Some result\<rparr>)"
      have run: "runSetup r ok s = stop_if_running s @ [?s2] @ setup_stage ok ?s3"
        using Some True ReadOk by (simp add: runSetup_def Let_def)
      have s3: "settled ?s3" "projectInfo ?s3 \<noteq> None" "\<not> testRunning ?s3"
        using stop(2,3) by (simp_all add: settled_def)
      have "setup_stage ok ?s3 \<noteq> []"
        by (simp add: setup_stage_def Let_def)
      then have fin: "final s (runSetup r ok s) = final ?s3 (setup_stage ok ?s3)"
        unfolding run by (simp add: final_def)
      show ?thesis
        using setup_stage_states [OF s3, of ok] stop(1) s2(2)
        unfolding fin by (simp add: run)
    qed
  qed
qed

lemma runRebuild_states:
  assumes "settled s"
  shows "list_all stage_order (runRebuild c ok s) \<and> settled (final s (runRebuild c ok s))"
proof (cases "projectInfo s = None \<or> \<not> setupComplete s")
  case True
  then show ?thesis using assms by (simp add: runRebuild_def)
next
  case False
  then obtain info where info: "projectInfo s = Some info" and ready: "setupComplete s"
    by auto
  note stop = stop_if_running_states [OF assms]
  show ?thesis
    using stop(1,3-6) stop(2) [unfolded settled_def]
    by (simp add: runRebuild_def runBuild_def runBuild_begin_def runBuild_end_def stop_if_running_def [of "logMessage _ _ _"]
        Let_def updateUI_id order_defs info ready)
qed

lemma runAll_states:
  assumes "settled s"
  shows "list_all stage_order (runAll a b x y s) \<and> settled (final s (runAll a b x y s))"
proof (cases "projectInfo s")
  case None
  then show ?thesis using assms by (simp add: runAll_def)
next
  case (Some info)
  note stop = stop_if_running_states [OF assms]
  show ?thesis
    using stop(1,3-6) stop(2) [unfolded settled_def]
    by (simp add: runAll_def Let_def updateUI_id order_defs Some split: option.splits)
qed

lemma rebuild_states:
  assumes "settled s"
  shows "list_all stage_order (rebuild a b x y s) \<and> settled (final s (rebuild a b x y s))"
proof -
  note stop = stop_if_running_states [OF assms]
  let ?s1 = "(final s (stop_if_running s))\<lparr>notificationShown := False, fileChangedSinceSetup := False\<rparr>"
  have s1: "settled ?s1"
    using stop(2) by (simp add: settled_def)
  have run: "rebuild a b x y s = stop_if_running s @ [?s1] @ runAll a b x y ?s1"
    by (simp add: rebuild_def Let_def)
  have fin: "final s (rebuild a b x y s) = final ?s1 (runAll a b x y ?s1)"
    unfolding run by (simp add: final_def)
  show ?thesis
    using runAll_states [OF s1, of a b x y] stop(1) settled_stage_order [OF s1]
    unfolding fin by (simp add: run)
qed

lemma loadProject_continue_states:
  assumes "settled s"
  shows "list_all stage_order (loadProject_continue d r s)
     \<and> settled (final s (loadProject_continue d r s))"
proof (cases r)
  case (ReadFailed e)
  have "settled ((logMessage ''error'' (''Failed to load project: '' @ e) s)\<lparr>projectInfo := None\<rparr>)"
    using assms by (simp add: settled_def)
  from settled_updateUI [OF this] show ?thesis
    using ReadFailed by (simp add: loadProject_continue_def settled_stage_order)
next
  case (ReadOk result)
  let ?s2 = "s\<lparr>projectInfo := Some result\<rparr>"
  have s2: "stage_order ?s2"
    using assms by (intro settled_stage_order) (simp add: settled_def)
  show ?thesis
  proof (cases d)
    case True
    let ?s4 = "logMessage ''info'' ''Different project selected - resetting workflow state.''
                 (logMessage ''success'' (''Project loaded: '' @ info_projectName result) ?s2)"
    have s4: "settled ?s4"
      using assms by (simp add: settled_def)
    note stop = stop_if_running_states [OF s4]
    have run: "loadProject_continue d r s = [?s2] @ stop_if_running ?s4 @
        [updateUI ((final ?s4 (stop_if_running ?s4))\<lparr>setupComplete := False, buildComplete := False,
           testRunning := False, fileChangedSinceSetup := False, notificationShown := False,
           setupStatus := (Pending, []), buildStatus := (Pending, []), testStatus := (Pending, [])\<rparr>)]"
      using ReadOk True by (simp add: loadProject_continue_def Let_def)
    have "settled ((final ?s4 (stop_if_running ?s4))\<lparr>setupComplete := False, buildComplete := False,
           testRunning := False, fileChangedSinceSetup := False, notificationShown := False,
           setupStatus := (Pending, []), buildStatus := (Pending, []), testStatus := (Pending, [])\<rparr>)"
      using stop(2) by (simp add: settled_def)
    from settled_updateUI [OF this] show ?thesis
      unfolding run using stop(1) s2 by (simp add: settled_stage_order)
  next
    case False
    define s6 where "s6 = final s (loadProject_continue d r s)"
    have run: "loadProject_continue d r s = [?s2, s6]"
      unfolding s6_def using ReadOk False by (simp add: loadProject_continue_def Let_def)
    have "settled s6"
      unfolding s6_def using ReadOk False assms
      by (simp add: loadProject_continue_def Let_def)
        (intro conjI impI settled_updateUI; simp add: settled_def)
    then show ?thesis
      using s2 by (simp add: run settled_stage_order)
  qed
qed

lemma loadProject_states:
  assumes "settled s"
  shows "list_all stage_order (loadProject path r s) \<and> settled (final s (loadProject path r s))"
proof -
  let ?s1 = "logMessage ''info'' (''Selected project file: '' @ path) (s\<lparr>projectPath := Some path\<rparr>)"
  have s1: "settled ?s1"
    using assms by (simp add: settled_def)
  show ?thesis
    using loadProject_continue_states [OF s1] settled_stage_order [OF s1]
    by (simp add: loadProject_def loadProject_begin_def)
qed

lemma onFileChanged_states:
  assumes "settled s"
  shows "list_all stage_order (onFileChanged path r s) \<and> settled (final s (onFileChanged path r s))"
proof (cases "Some path = projectPath s")
  case True
  let ?s1 = "logMessage ''info'' ''Project file changed, reloading...'' s"
  let ?s2 = "snd (loadProject_begin path ?s1)"
  let ?s3 = "if setupComplete ?s1 then ?s2\<lparr>fileChangedSinceSetup := True, notificationShown := True\<rparr>
             else ?s2"
  have s3: "settled ?s3"
    using assms by (simp add: settled_def loadProject_begin_def)
  show ?thesis
    using loadProject_continue_states [OF s3] settled_stage_order [OF s3] True
    by (simp add: onFileChanged_def Let_def split_beta)
next
  case False
  have "settled (s\<lparr>fileChangedSinceSetup := True, notificationShown := True\<rparr>)"
    using assms by (simp add: settled_def)
  then show ?thesis
    using False assms by (simp add: onFileChanged_def settled_stage_order)
qed

lemma handle_states:
  assumes "settled s"
  shows "list_all stage_order (handle e s) \<and> settled (final s (handle e s))"
proof (cases e)
  case (LoadProject path r)
  then show ?thesis using loadProject_states [OF assms] by simp
next
  case (FileChanged path r)
  then show ?thesis using onFileChanged_states [OF assms] by simp
next
  case Dismiss
  have "settled (s\<lparr>notificationShown := False, fileChangedSinceSetup := False\<rparr>)"
    using assms by (simp add: settled_def)
  then show ?thesis
    using Dismiss by (simp add: dismiss_def settled_stage_order)
next
  case (Rebuild a b x y)
  then show ?thesis using rebuild_states [OF assms] by simp
next
  case (RunSetup r ok)
  then show ?thesis using runSetup_states [OF assms] by simp
next
  case (RunBuild ok)
  then show ?thesis using runBuild_states [OF assms] by simp
next
  case (RunRebuild c ok)
  then show ?thesis using runRebuild_states [OF assms] by simp
next
  case (RunAll a b x y)
  then show ?thesis using runAll_states [OF assms] by simp
next
  case (RunTest x y)
  then show ?thesis using runTest_states [OF assms] by simp
next
  case StopTest
  have "settled (s\<lparr>testRunning := False, testUrl := None, testStatus := (Pending, [])\<rparr>)"
    using assms by (simp add: settled_def)
  from settled_updateUI [of "logMessage ''info'' ''Test server stopped.'' _", simplified, OF this]
  show ?thesis
    using StopTest assms by (simp add: stopTest_def settled_stage_order)
qed

lemma reachable_settled: "reachable_serially s \<Longrightarrow> settled s"
proof (induction rule: reachable_serially.induct)
  case (start b2 b3 b1)
  then show ?case by (simp add: settled_def initial_def)
next
  case (step s e)
  then show ?case using handle_states by blast
qed

lemma rejected_without_setup:
  "\<not> setupComplete s \<Longrightarrow> handle (RunBuild ok) s = [] \<and> handle (RunRebuild c ok) s = []"
  by (simp add: runBuild_def runBuild_begin_def runBuild_end_def runRebuild_def)

lemma rejected_without_build:
  "\<not> buildComplete s \<Longrightarrow> handle (RunTest x y) s = []"
  by (simp add: runTest_def runTest_begin_def runTest_extracted_def runTest_served_def)

lemma build_failure_outcome:
  assumes "settled s" and "build_fails e" and "handle e s \<noteq> []"
  shows "buildStatus (final s (handle e s)) = (ErrorBadge, ''Failed'')
       \<and> \<not> buildComplete (final s (handle e s))
       \<and> setupComplete (final s (handle e s))"
proof -
  note stop = stop_if_running_states [OF assms(1)]
  show ?thesis
  proof (cases e)
    case (RunBuild ok)
    then obtain info where "projectInfo s = Some info" "setupComplete s" "\<not> ok"
      using assms(2,3) by (auto simp: runBuild_def runBuild_begin_def runBuild_end_def split: if_splits)
    then show ?thesis
      using RunBuild stop(3-6) by (simp add: runBuild_def runBuild_begin_def runBuild_end_def Let_def updateUI_id)
  next
    case (RunRebuild c ok)
    then obtain info where "projectInfo s = Some info" "setupComplete s" "\<not> c \<or> \<not> ok"
      using assms(2,3) by (auto simp: runRebuild_def split: if_splits)
    then show ?thesis
      using RunRebuild stop(3-6)
      by (auto simp: runRebuild_def runBuild_def runBuild_begin_def runBuild_end_def stop_if_running_def [of "logMessage _ _ _"]
          Let_def updateUI_id)
  next
    case (RunAll a b x y)
    then obtain info where "projectInfo s = Some info" "a" "\<not> b"
      using assms(2,3) by (auto simp: runAll_def split: if_splits)
    then show ?thesis
      using RunAll stop(3-6) by (simp add: runAll_def Let_def updateUI_id)
  qed (use assms(2) in simp_all)
qed

text \<open>
  When every event is handled to its end before the next one arrives, the stages run in
  order. In every state between events, and in every state an operation started there
  passes through: while the build is running the setup is complete, and while the test
  is running the build is complete. A build asked for without a complete setup, and a
  test asked for without a complete build, return at once and change nothing. When the
  build step of an operation fails, the state it leaves has the build badge at Failed
  and the setup still complete, and a test asked for there is rejected in that way.
\<close>

lemma serial_stages_in_order:
  assumes "reachable_serially s"
  shows "stage_order s
       \<and> list_all stage_order (handle e s)
       \<and> (\<not> setupComplete s \<longrightarrow> handle (RunBuild ok) s = [] \<and> handle (RunRebuild cleaned ok) s = [])
       \<and> (\<not> buildComplete s \<longrightarrow> handle (RunTest extracted served) s = [])
       \<and> (build_fails e \<and> handle e s \<noteq> [] \<longrightarrow>
            buildStatus (final s (handle e s)) = (ErrorBadge, ''Failed'')
          \<and> setupComplete (final s (handle e s))
          \<and> handle (RunTest extracted served) (final s (handle e s)) = [])"
proof -
  have s: "settled s"
    using assms by (rule reachable_settled)
  have "handle (RunTest extracted served) (final s (handle e s)) = []"
    if "build_fails e" "handle e s \<noteq> []"
    using build_failure_outcome [OF s that] by (intro rejected_without_build) simp
  then show ?thesis
    using settled_stage_order [OF s] handle_states [OF s, of e]
      rejected_without_setup [of s ok cleaned] rejected_without_build [of s extracted served]
      build_failure_outcome [OF s, of e]
    by blast
qed

lemma loaded_reachable: "reachable_serially loaded"
  unfolding loaded_def by (intro reachable_serially.intros) simp_all

text \<open>
  From the state after loading a project whose setup is complete, a failing build leaves
  the badge at Failed and the setup complete, and the test does not start.
\<close>

lemma serial_stages_in_order_example:
  "buildStatus (final loaded (handle (RunBuild False) loaded)) = (ErrorBadge, ''Failed'')
   \<and> setupComplete (final loaded (handle (RunBuild False) loaded))
   \<and> handle (RunTest (Some ''/out'') (Some ''http://localhost:3000''))
        (final loaded (handle (RunBuild False) loaded)) = []
   \<and> list_all stage_order (handle (RunBuild False) loaded)"
proof -
  have "build_fails (RunBuild False) \<and> handle (RunBuild False) loaded \<noteq> []"
    by (simp add: runBuild_def runBuild_begin_def runBuild_end_def loaded_def loadProject_def loadProject_begin_def
        loadProject_continue_def initial_def Let_def demo_info_def truthy_def)
  then show ?thesis
    using serial_stages_in_order [OF loaded_reachable, of "RunBuild False" False False
        "Some ''/out''" "Some ''http://localhost:3000''"]
    by blast
qed


lemma ui_event_coalesced:
  "fileChangedSinceSetup s \<Longrightarrow> Some path \<noteq> projectPath s \<Longrightarrow> onFileChanged path r s = []"
  by (simp add: onFileChanged_def)

lemma watch_coalesced:
  "fileChangedSinceSetup s \<Longrightarrow> \<forall>(p, r) \<in> set later. Some p \<noteq> projectPath s \<Longrightarrow> watch later s = s"
proof (induction later)
  case Nil
  then show ?case by simp
next
  case (Cons ev later)
  obtain p r where ev: "ev = (p, r)"
    by (cases ev)
  have "onFileChanged p r s = []"
    using Cons.prems ev by (intro ui_event_coalesced) auto
  then show ?case
    using Cons ev by simp
qed

lemma rebuild_clears_flag:
  "\<not> fileChangedSinceSetup (final s (rebuild a b x y s))"
proof -
  let ?s0 = "final s (stop_if_running s)"
  let ?s1 = "?s0\<lparr>notificationShown := False, fileChangedSinceSetup := False\<rparr>"
  have run: "rebuild a b x y s = stop_if_running s @ [?s1] @ runAll a b x y ?s1"
    by (simp add: rebuild_def Let_def)
  have stop1: "fileChangedSinceSetup (final t (stop_if_running t)) = fileChangedSinceSetup t" for t
    by (simp add: stop_if_running_def stopTest_def)
  have "\<not> fileChangedSinceSetup (final ?s1 (runAll a b x y ?s1))"
    using stop1 [of ?s1] by (simp add: runAll_def Let_def split: option.splits)
  then show ?thesis
    unfolding run by simp
qed

text \<open>
  Events under the UI directory alone are coalesced. With the setup complete and the flag
  down, a watch event for a file under the UI directory raises the flag, shows the
  notification and logs one line. Any sequence of further events for files under the UI
  directory then leaves the state, its log included, exactly as it is. Dismissing the
  notification, or rebuilding from it, lowers the flag again.
\<close>

theorem stale_flag_raised_once:
  assumes "setupComplete s" and "\<not> fileChangedSinceSetup s"
    and "Some path \<noteq> projectPath s"
    and "\<forall>(p, r') \<in> set later. Some p \<noteq> projectPath s"
  shows "fileChangedSinceSetup (final s (onFileChanged path r s))
       \<and> notificationShown (final s (onFileChanged path r s))
       \<and> messages (final s (onFileChanged path r s)) = messages s @ [(''info'', ''File changed: '' @ path)]
       \<and> watch later (final s (onFileChanged path r s)) = final s (onFileChanged path r s)
       \<and> \<not> fileChangedSinceSetup (final (final s (onFileChanged path r s))
              (dismiss (final s (onFileChanged path r s))))
       \<and> \<not> fileChangedSinceSetup (final (final s (onFileChanged path r s))
              (rebuild setupOk buildOk extracted served (final s (onFileChanged path r s))))"
proof -
  let ?s1 = "logMessage ''info'' (''File changed: '' @ path)
           (s\<lparr>fileChangedSinceSetup := True, notificationShown := True\<rparr>)"
  have first: "final s (onFileChanged path r s) = ?s1"
    using assms(1-3) by (simp add: onFileChanged_def)
  have "watch later ?s1 = ?s1"
    using assms(4) by (intro watch_coalesced) simp_all
  then show ?thesis
    unfolding first using rebuild_clears_flag [of ?s1]
    by (simp add: dismiss_def)
qed

text \<open>
  After loading the set-up project, a change of \<^verbatim>\<open>screens.c\<close> raises the flag with one log
  line, and two more events change nothing.
\<close>

theorem stale_flag_raised_once_witness:
  "fileChangedSinceSetup (final loaded (onFileChanged ''/p/src/ui/screens.c'' (ReadFailed []) loaded))
   \<and> watch [(''/p/src/ui/screens.h'', ReadFailed []), (''/p/src/ui/new.c'', ReadFailed [])]
        (final loaded (onFileChanged ''/p/src/ui/screens.c'' (ReadFailed []) loaded))
       = final loaded (onFileChanged ''/p/src/ui/screens.c'' (ReadFailed []) loaded)
   \<and> messages (final loaded (onFileChanged ''/p/src/ui/screens.c'' (ReadFailed []) loaded))
       = messages loaded @ [(''info'', ''File changed: /p/src/ui/screens.c'')]"
proof -
  have state: "setupComplete loaded" "\<not> fileChangedSinceSetup loaded"
    "projectPath loaded = Some ''/p/demo.eez-project''"
    by (simp_all add: loaded_def loadProject_def loadProject_begin_def
        loadProject_continue_def initial_def Let_def demo_info_def truthy_def)
  have paths: "Some ''/p/src/ui/screens.c'' \<noteq> projectPath loaded"
    "\<forall>(p, r') \<in> set [(''/p/src/ui/screens.h'', ReadFailed []), (''/p/src/ui/new.c'', ReadFailed [])].
       Some p \<noteq> projectPath loaded"
    by (simp_all add: state(3))
  from stale_flag_raised_once [OF state(1,2) paths, of "ReadFailed []" True True None None]
  show ?thesis
    by simp
qed

text \<open>
  Claim C9, at the failing input. The listener's branch for the project file starts
  \<^verbatim>\<open>loadProject\<close> without awaiting it and raises the flag; the rest of \<^verbatim>\<open>loadProject\<close> runs
  afterwards and, for the same project, lowers the flag and hides the notification. So
  after the first change under the UI directory has raised the flag, a change of the
  project file leaves it down with the setup still complete, although nothing was
  dismissed or rebuilt, and the next change under the UI directory raises it and logs
  \<^verbatim>\<open>File changed\<close> a second time.
\<close>

theorem stale_flag_raised_again:
  "fileChangedSinceSetup (watch (take 1 interleaved_changes) loaded)
   \<and> \<not> fileChangedSinceSetup (watch (take 2 interleaved_changes) loaded)
   \<and> \<not> notificationShown (watch (take 2 interleaved_changes) loaded)
   \<and> setupComplete (watch (take 2 interleaved_changes) loaded)
   \<and> fileChangedSinceSetup (watch interleaved_changes loaded)
   \<and> notificationShown (watch interleaved_changes loaded)
   \<and> messages (watch interleaved_changes loaded) =
       messages loaded @
       [(''info'', ''File changed: /p/src/ui/screens.c''),
        (''info'', ''Project file changed, reloading...''),
        (''info'', ''Selected project file: /p/demo.eez-project''),
        (''success'', ''Project loaded: demo''),
        (''info'', ''Previous setup detected.''),
        (''info'', ''File changed: /p/src/ui/screens.h'')]"
  by (simp add: interleaved_changes_def onFileChanged_def loaded_def loadProject_def
      loadProject_begin_def loadProject_continue_def initial_def Let_def demo_info_def
      truthy_def)

end
